theory Spec2Isabelle
  imports
    Complex_Main
    "HOL-Library.Word"
    "HOL-Library.AList"
    "HOL-Library.List_Lexorder"
    "HOL-Library.Char_ord"
begin

section \<open>Conventions of the embedding\<close>

text \<open>
  The development embeds the detection core of the repository: the scale based anchor
  generator (\<^verbatim>\<open>scale_based_anchor_generator.py\<close>), the box delta codec
  (\<^verbatim>\<open>delta_encoding.py\<close>), the COCO recall metric in its two variants
  (\<^verbatim>\<open>metrics/coco/recall.py\<close>, \<^verbatim>\<open>benchmarks/recall/in_graph_recall.py\<close>) and the mean box
  count delta metric (\<^verbatim>\<open>mean_box_count_delta.py\<close>).

  \<^item> A \<^verbatim>\<open>float32\<close> tensor entry is a \<^typ>\<open>real\<close>: rounding and overflow of the
    floating-point format are not modelled. The result of a metric is a
    \<open>tf_float\<close>, which keeps NaN and the infinities of an unguarded division apart
    from the finite values.
  \<^item> An \<^verbatim>\<open>int32\<close> tensor entry is a \<^typ>\<open>32 word\<close>, read by \<^const>\<open>sint\<close>.
  \<^item> A tensor of shape \<^verbatim>\<open>[N]\<close> is a list, a tensor of shape \<^verbatim>\<open>[N, 4]\<close> a list of
    4-tuples. A Python number given where a list is expected behaves, in every operation
    used here, as the one-element list, and is modelled as one.
  \<^item> A Python \<^verbatim>\<open>dict\<close> is an association list with the keys in insertion order;
    \<^verbatim>\<open>d[k] = v\<close> is \<^const>\<open>AList.update\<close>.
  \<^item> Every \<^verbatim>\<open>raise\<close>, and every exception that the evaluation of a statement ends in,
    is a value \<open>Inl e\<close> of the result type.
\<close>

datatype message =
    ExpectedListOrDict string
  | ExpectedSameKeys string
  | SizesStridesLength string "real list" "real list"
  | VarianceLength
  | StructureMismatch
  | ClassIdsPositive

datatype error =
    ValueError message
  | NameError string
  | AttributeError string
  | TypeError string
  | KeyError string
  | InvalidArgumentError string

type_synonym box = "real \<times> real \<times> real \<times> real"

section \<open>Library operations used by the sources\<close>

text \<open>
  Elementwise arithmetic on two rank-1 tensors with broadcasting: equal lengths pair
  up, a one-element operand is repeated, any other combination is rejected.
\<close>

definition broadcast2 ::
  "(real \<Rightarrow> real \<Rightarrow> real) \<Rightarrow> real list \<Rightarrow> real list \<Rightarrow> error + real list" where
  "broadcast2 f xs ys =
     (if length xs = length ys then Inr (map2 f xs ys)
      else if length xs = 1 then Inr (map (f (hd xs)) ys)
      else if length ys = 1 then Inr (map (\<lambda>x. f x (hd ys)) xs)
      else Inl (InvalidArgumentError ''Incompatible shapes''))"

text \<open>
  \<^verbatim>\<open>tf.range(start, limit, delta)\<close> on floats: \<open>ceil(|limit - start| / |delta|)\<close> values
  \<open>start + i * delta\<close>. The kernel rejects a zero step and a limit on the wrong side
  of the start.
\<close>

definition tf_range :: "real \<Rightarrow> real \<Rightarrow> real \<Rightarrow> error + real list" where
  "tf_range start limit delta =
     (if delta = 0 then Inl (InvalidArgumentError ''Requires delta != 0'')
      else if 0 < delta \<and> limit < start
        then Inl (InvalidArgumentError ''Requires start <= limit when delta > 0'')
      else if delta < 0 \<and> start < limit
        then Inl (InvalidArgumentError ''Requires start >= limit when delta < 0'')
      else Inr (map (\<lambda>i. start + real i * delta)
                 [0..<nat \<lceil>\<bar>(limit - start) / delta\<bar>\<rceil>]))"

text \<open>
  The arguments of \<^verbatim>\<open>tf.range\<close> must be scalars; a vector of one element is still
  accepted as a scalar, a longer or empty one is rejected.
\<close>

definition as_scalar :: "real list \<Rightarrow> error + real" where
  "as_scalar xs =
     (case xs of [x] \<Rightarrow> Inr x
      | _ \<Rightarrow> Inl (InvalidArgumentError ''start must be a scalar''))"

section \<open>The single-level anchor generator\<close>

text \<open>
  \<^verbatim>\<open>_SingleAnchorGenerator\<close>: the fields are stored by \<^verbatim>\<open>__init__\<close> as given.
  \<open>stride\<close> is the value the multi-level constructor passes, the level's list of
  strides.
\<close>

record single_anchor_generator =
  scale :: real
  sizes :: "real list"
  aspect_ratios :: "real list"
  stride :: "real list"
  clip_boxes :: bool

definition clip :: "real \<Rightarrow> real \<Rightarrow> real" where
  "clip v image_dim = max (min v image_dim) 0"

text \<open>
  Flattening \<^verbatim>\<open>grid[H, W, 1] op half[1, 1, K]\<close> in row-major order: rows, then columns,
  then the K anchor shapes of the cell.
\<close>

definition grid_rows :: "(real \<Rightarrow> real \<Rightarrow> real) \<Rightarrow> real list \<Rightarrow> real list \<Rightarrow> real list \<Rightarrow> real list" where
  "grid_rows f cy cx half = concat (map (\<lambda>y. concat (map (\<lambda>x. map (\<lambda>h. f y h) half) cx)) cy)"

definition grid_cols :: "(real \<Rightarrow> real \<Rightarrow> real) \<Rightarrow> real list \<Rightarrow> real list \<Rightarrow> real list \<Rightarrow> real list" where
  "grid_cols f cy cx half = concat (map (\<lambda>y. concat (map (\<lambda>x. map (\<lambda>h. f x h) half) cx)) cy)"

definition concat4 :: "real list \<Rightarrow> real list \<Rightarrow> real list \<Rightarrow> real list \<Rightarrow> box list" where
  "concat4 y_min x_min y_max x_max = zip y_min (zip x_min (zip y_max x_max))"

text \<open>
  \<^verbatim>\<open>_SingleAnchorGenerator.__call__(image_size)\<close>, boxes in \<^verbatim>\<open>yxyx\<close> order. The aspect
  ratios are positive floats by the contract of the class; for a ratio that is not, the
  source computes NaN or infinite coordinates, which the reals of this model do not
  have.
\<close>

definition single_call :: "single_anchor_generator \<Rightarrow> nat \<times> nat \<Rightarrow> error + box list" where
  "single_call g image_size =
     (let image_height = real (fst image_size);
          image_width = real (snd image_size);
          aspect_ratios_sqrt = map sqrt (aspect_ratios g);
          anchor_sizes_t = map (\<lambda>s. s * scale g) (sizes g)
      in case broadcast2 (\<lambda>a b. a / b) anchor_sizes_t aspect_ratios_sqrt of
           Inl e \<Rightarrow> Inl e
         | Inr anchor_heights \<Rightarrow>
      (case broadcast2 (\<lambda>a b. a * b) anchor_sizes_t aspect_ratios_sqrt of
           Inl e \<Rightarrow> Inl e
         | Inr anchor_widths \<Rightarrow>
      (let half_anchor_heights = map (\<lambda>h. 0.5 * h) anchor_heights;
           half_anchor_widths = map (\<lambda>w. 0.5 * w) anchor_widths
       in case as_scalar (stride g) of
           Inl e \<Rightarrow> Inl e
         | Inr s \<Rightarrow>
      (case tf_range (0.5 * s) image_width s of
           Inl e \<Rightarrow> Inl e
         | Inr cx \<Rightarrow>
      (case tf_range (0.5 * s) image_height s of
           Inl e \<Rightarrow> Inl e
         | Inr cy \<Rightarrow>
      (let y_min = grid_rows (\<lambda>c h. c - h) cy cx half_anchor_heights;
           y_max = grid_rows (\<lambda>c h. c + h) cy cx half_anchor_heights;
           x_min = grid_cols (\<lambda>c w. c - w) cy cx half_anchor_widths;
           x_max = grid_cols (\<lambda>c w. c + w) cy cx half_anchor_widths
       in if clip_boxes g
          then Inr (concat4 (map (\<lambda>v. clip v image_height) y_min)
                            (map (\<lambda>v. clip v image_width) x_min)
                            (map (\<lambda>v. clip v image_height) y_max)
                            (map (\<lambda>v. clip v image_width) x_max))
          else Inr (concat4 y_min x_min y_max x_max)))))))"


section \<open>The multi-level anchor generator: construction\<close>

text \<open>
  A constructor argument is a list, a tuple, a dictionary from level names to values,
  or something else. The elements of a flat list have type \<open>'e\<close>, the values of a
  dictionary type \<open>'v\<close>.
\<close>

datatype ('e, 'v) param =
    PList "'e list"
  | PTuple "'e list"
  | PDict "(string \<times> 'v) list"
  | POther

text \<open>The decimal numeral of \<^verbatim>\<open>f"level_{i}"\<close>.\<close>

definition digit_char :: "nat \<Rightarrow> char" where
  "digit_char d = ''0123456789'' ! d"

fun string_of_nat :: "nat \<Rightarrow> string" where
  "string_of_nat n =
     (if n < 10 then [digit_char n] else string_of_nat (n div 10) @ [digit_char (n mod 10)])"

declare string_of_nat.simps [simp del]

definition level_name :: "nat \<Rightarrow> string" where
  "level_name i = ''level_'' @ string_of_nat i"

text \<open>
  \<^verbatim>\<open>AnchorGenerator._pack_parameter_to_dict\<close>. The message of the first \<^verbatim>\<open>raise\<close>
  interpolates \<^verbatim>\<open>sizes\<close>, a name the static method does not bind, so that branch ends
  in a \<^verbatim>\<open>NameError\<close>.
\<close>

definition pack_parameter_to_dict :: "('v, 'v) param \<Rightarrow> string \<Rightarrow> error + (string \<times> 'v) list" where
  "pack_parameter_to_dict p param_name =
     (case p of
        POther \<Rightarrow> Inl (NameError ''sizes'')
      | PDict d \<Rightarrow> Inr d
      | PList xs \<Rightarrow>
          Inr (foldl (\<lambda>result i. AList.update (level_name i) (xs ! i) result) [] [0..<length xs])
      | PTuple xs \<Rightarrow>
          Inr (foldl (\<lambda>result i. AList.update (level_name i) (xs ! i) result) [] [0..<length xs]))"

text \<open>\<^verbatim>\<open>AnchorGenerator._broadcast_parameter_to_scales\<close>.\<close>

definition broadcast_parameter_to_scales ::
  "('e, 'e list) param \<Rightarrow> string \<Rightarrow> (string \<times> 's) list \<Rightarrow> error + (string \<times> 'e list) list" where
  "broadcast_parameter_to_scales p param_name scales0 =
     (case (case p of
              PList xs \<Rightarrow> Inr (foldl (\<lambda>result key. AList.update key xs result) [] (map fst scales0))
            | PDict d \<Rightarrow> Inr d
            | _ \<Rightarrow> Inl (ValueError (ExpectedListOrDict param_name))) of
        Inl e \<Rightarrow> Inl e
      | Inr d \<Rightarrow>
          if sort (map fst scales0) \<noteq> sort (map fst d)
          then Inl (ValueError (ExpectedSameKeys param_name))
          else Inr d)"

text \<open>\<^verbatim>\<open>AnchorGenerator._validate_sizes_and_strides\<close>: the levels of \<^verbatim>\<open>sizes\<close> in order.\<close>

fun validate_sizes_and_strides ::
  "(string \<times> real list) list \<Rightarrow> (string \<times> real list) list \<Rightarrow> error + unit" where
  "validate_sizes_and_strides [] strides0 = Inr ()"
| "validate_sizes_and_strides ((level, sizes_at_level) # rest) strides0 =
     (case map_of strides0 level of
        None \<Rightarrow> Inl (KeyError level)
      | Some strides_at_level \<Rightarrow>
          if length sizes_at_level \<noteq> length strides_at_level
          then Inl (ValueError (SizesStridesLength level sizes_at_level strides_at_level))
          else validate_sizes_and_strides rest strides0)"

record 'f anchor_generator =
  bounding_box_format :: 'f
  anchor_generators :: "(string \<times> single_anchor_generator) list"

text \<open>The loop of \<^verbatim>\<open>__init__\<close> over \<^verbatim>\<open>scales.keys()\<close>.\<close>

fun build_generators ::
  "string list \<Rightarrow> (string \<times> real) list \<Rightarrow> (string \<times> real list) list \<Rightarrow>
   (string \<times> real list) list \<Rightarrow> (string \<times> real list) list \<Rightarrow> bool \<Rightarrow>
   (string \<times> single_anchor_generator) list \<Rightarrow> error + (string \<times> single_anchor_generator) list" where
  "build_generators [] scales0 sizes0 aspect_ratios0 strides0 clip0 acc = Inr acc"
| "build_generators (level # levels) scales0 sizes0 aspect_ratios0 strides0 clip0 acc =
     (case (map_of scales0 level, map_of sizes0 level, map_of aspect_ratios0 level,
            map_of strides0 level) of
        (Some sc, Some sz, Some ar, Some st) \<Rightarrow>
          build_generators levels scales0 sizes0 aspect_ratios0 strides0 clip0
            (AList.update level
               \<lparr>scale = sc, sizes = sz, aspect_ratios = ar, stride = st, clip_boxes = clip0\<rparr> acc)
      | _ \<Rightarrow> Inl (KeyError level))"

text \<open>\<^verbatim>\<open>AnchorGenerator.__init__\<close>.\<close>

definition init ::
  "'f \<Rightarrow> (real, real list) param \<Rightarrow> (real, real) param \<Rightarrow> (real, real list) param \<Rightarrow>
   (real, real list) param \<Rightarrow> bool \<Rightarrow> error + 'f anchor_generator" where
  "init format0 sizes0 scales0 aspect_ratios0 strides0 clip0 =
     (case pack_parameter_to_dict scales0 ''scales'' of
        Inl e \<Rightarrow> Inl e
      | Inr scales1 \<Rightarrow>
     (case broadcast_parameter_to_scales sizes0 ''sizes'' scales1 of
        Inl e \<Rightarrow> Inl e
      | Inr sizes1 \<Rightarrow>
     (case broadcast_parameter_to_scales strides0 ''strides'' scales1 of
        Inl e \<Rightarrow> Inl e
      | Inr strides1 \<Rightarrow>
     (case validate_sizes_and_strides sizes1 strides1 of
        Inl e \<Rightarrow> Inl e
      | Inr _ \<Rightarrow>
     (case broadcast_parameter_to_scales aspect_ratios0 ''aspect_ratios'' scales1 of
        Inl e \<Rightarrow> Inl e
      | Inr aspect_ratios1 \<Rightarrow>
     (case build_generators (map fst scales1) scales1 sizes1 aspect_ratios1 strides1 clip0 [] of
        Inl e \<Rightarrow> Inl e
      | Inr gens \<Rightarrow> Inr \<lparr>bounding_box_format = format0, anchor_generators = gens\<rparr>))))))"

section \<open>The box delta codec\<close>

text \<open>
  \<^verbatim>\<open>delta_encoding.py\<close> imports \<^verbatim>\<open>typing\<close>, \<^verbatim>\<open>tensorflow\<close> and \<^verbatim>\<open>keras\<close> only, and its two
  functions take the formats as \<^verbatim>\<open>anchor_box_format\<close> and \<^verbatim>\<open>bounding_box_format\<close>. Their
  bodies call \<^verbatim>\<open>convert_format\<close> with \<^verbatim>\<open>anchor_format\<close> and \<^verbatim>\<open>box_format\<close>; the module binds
  none of these three names. The callee of a call is evaluated first, so the first call
  of \<^verbatim>\<open>convert_format\<close> ends in a \<^verbatim>\<open>NameError\<close> for that name, and the clamping, the
  arithmetic and the division by the variance that follow it are never reached.
\<close>

definition check_variance :: "real list option \<Rightarrow> error + unit" where
  "check_variance variance =
     (case variance of
        None \<Rightarrow> Inr ()
      | Some v \<Rightarrow> if length v \<noteq> 4 then Inl (ValueError VarianceLength) else Inr ())"

text \<open>\<^verbatim>\<open>encode_box_to_deltas\<close>: the check of the variance, then the first conversion.\<close>

definition encode_box_to_deltas ::
  "box list \<Rightarrow> box list \<Rightarrow> string \<Rightarrow> string \<Rightarrow> real list option \<Rightarrow> error + box list" where
  "encode_box_to_deltas anchors bs anchor_box_format bounding_box_format0 variance =
     (case check_variance variance of
        Inl e \<Rightarrow> Inl e
      | Inr _ \<Rightarrow> Inl (NameError ''convert_format''))"

text \<open>
  The arguments of \<^verbatim>\<open>decode_deltas_to_boxes\<close> are either tensors or dictionaries of
  tensors by pyramid level.
\<close>

datatype 'a nest = Tensor 'a | Levels "(string \<times> 'a) list"

definition assert_same_structure :: "'a nest \<Rightarrow> 'b nest \<Rightarrow> error + unit" where
  "assert_same_structure a b =
     (case (a, b) of
        (Tensor _, Tensor _) \<Rightarrow> Inr ()
      | (Levels x, Levels y) \<Rightarrow>
          if sort (map fst x) = sort (map fst y) then Inr ()
          else Inl (ValueError StructureMismatch)
      | _ \<Rightarrow> Inl (ValueError StructureMismatch))"

text \<open>
  The local function \<^verbatim>\<open>decode_single_level\<close>: its first statement is the conversion of the
  anchor.
\<close>

definition decode_single_level :: "box list \<Rightarrow> box list \<Rightarrow> error + box list" where
  "decode_single_level anchor box_delta = Inl (NameError ''convert_format'')"

text \<open>The loop over \<^verbatim>\<open>anchors.items()\<close> of the dictionary branch.\<close>

fun decode_levels ::
  "(string \<times> box list) list \<Rightarrow> (string \<times> box list) list \<Rightarrow> (string \<times> box list) list
   \<Rightarrow> error + (string \<times> box list) list" where
  "decode_levels [] boxes_delta acc = Inr acc"
| "decode_levels ((lvl, anchor) # rest) boxes_delta acc =
     (case map_of boxes_delta lvl of
        None \<Rightarrow> Inl (KeyError lvl)
      | Some d \<Rightarrow>
          (case decode_single_level anchor d of
             Inl e \<Rightarrow> Inl e
           | Inr b \<Rightarrow> decode_levels rest boxes_delta (AList.update lvl b acc)))"

text \<open>\<^verbatim>\<open>decode_deltas_to_boxes\<close>.\<close>

definition decode_deltas_to_boxes ::
  "box list nest \<Rightarrow> box list nest \<Rightarrow> string \<Rightarrow> string \<Rightarrow> real list option
   \<Rightarrow> error + box list nest" where
  "decode_deltas_to_boxes anchors boxes_delta anchor_box_format bounding_box_format0 variance =
     (case check_variance variance of
        Inl e \<Rightarrow> Inl e
      | Inr _ \<Rightarrow>
     (case assert_same_structure anchors boxes_delta of
        Inl e \<Rightarrow> Inl e
      | Inr _ \<Rightarrow>
     (case (anchors, boxes_delta) of
        (Levels a, Levels d) \<Rightarrow>
          (case decode_levels a d [] of
             Inl e \<Rightarrow> Inl e
           | Inr r \<Rightarrow> Inr (Levels r))
      | (Tensor a, Tensor d) \<Rightarrow>
          (case decode_single_level a d of
             Inl e \<Rightarrow> Inl e
           | Inr r \<Rightarrow> Inr (Tensor r))
      | _ \<Rightarrow> Inl (ValueError StructureMismatch))))"

section \<open>Float division\<close>

text \<open>
  The result of a float division that the source does not guard: a zero divisor gives
  NaN for a zero dividend and an infinity otherwise. \<^verbatim>\<open>tf.math.divide_no_nan\<close> returns 0
  for a zero divisor. \<^verbatim>\<open>tf.math.reduce_mean\<close> divides the sum by the number of entries.
\<close>

datatype tf_float = Finite real | PosInf | NegInf | NaN

definition tf_divide :: "real \<Rightarrow> real \<Rightarrow> tf_float" where
  "tf_divide x y =
     (if y = 0 then (if x = 0 then NaN else if 0 < x then PosInf else NegInf)
      else Finite (x / y))"

definition divide_no_nan :: "real \<Rightarrow> real \<Rightarrow> real" where
  "divide_no_nan x y = (if y = 0 then 0 else x / y)"

definition reduce_mean :: "real list \<Rightarrow> tf_float" where
  "reduce_mean xs = tf_divide (sum_list xs) (real (length xs))"

section \<open>The box recall metric\<close>

text \<open>The KerasCV bounding box dictionary of one image.\<close>

record bounding_boxes =
  boxes :: "box list"
  classes :: "real list"
  confidence :: "real list option"

text \<open>
  An argument of \<^verbatim>\<open>update_state\<close>: the \<^verbatim>\<open>boxes\<close> tensor of a single image has rank 2,
  that of a batch of images rank 3.
\<close>

datatype y_input = Unbatched bounding_boxes | Batched "bounding_boxes list"

fun boxes_rank :: "y_input \<Rightarrow> nat" where
  "boxes_rank (Unbatched _) = 2"
| "boxes_rank (Batched _) = 3"

text \<open>
  The helpers of \<^verbatim>\<open>keras_cv.bounding_box\<close>, \<^verbatim>\<open>keras_cv.bounding_box.iou\<close> and of the
  \<^verbatim>\<open>utils\<close> module of each variant are not part of the sources at hand; they are
  parameters of the model, collected in one record. The fields carry the names used by
  \<^verbatim>\<open>recall.py\<close>; the benchmark variant calls \<^verbatim>\<open>select_boxes_of_class\<close> where
  \<^verbatim>\<open>recall.py\<close> calls \<^verbatim>\<open>filter_boxes\<close>, and wraps \<^verbatim>\<open>compute_iou\<close> in \<^verbatim>\<open>iou\<close>.
  \<^verbatim>\<open>validate_format\<close> returns the error it raises, if any. \<^verbatim>\<open>ensure_tensor\<close> only
  changes the container type and is left out, as is the warning about
  \<^verbatim>\<open>sample_weight\<close>.
\<close>

record recall_utils =
  validate_format :: "y_input \<Rightarrow> error option"
  to_dense :: "bounding_boxes list \<Rightarrow> bounding_boxes list"
  convert_format :: "bounding_boxes list \<Rightarrow> bounding_boxes list"
  sort_bounding_boxes :: "bounding_boxes list \<Rightarrow> bounding_boxes list"
  get_boxes_for_image :: "bounding_boxes list \<Rightarrow> nat \<Rightarrow> bounding_boxes"
  order_by_confidence :: "bounding_boxes \<Rightarrow> bounding_boxes"
  filter_boxes_by_area_range :: "bounding_boxes \<Rightarrow> real \<Rightarrow> real \<Rightarrow> bounding_boxes"
  filter_boxes :: "bounding_boxes \<Rightarrow> real \<Rightarrow> bounding_boxes"
  slice_boxes :: "bounding_boxes \<Rightarrow> int \<Rightarrow> bounding_boxes"
  compute_iou :: "box list \<Rightarrow> box list \<Rightarrow> real list list"
  match_boxes :: "real list list \<Rightarrow> real \<Rightarrow> int list"

text \<open>The metric object: its configuration and its two \<^verbatim>\<open>int32\<close> accumulators.\<close>

record recall_metric =
  class_ids :: "int list"
  iou_thresholds :: "real list"
  area_range :: "(real \<times> real) option"
  max_detections :: int
  true_positives :: "32 word list list"
  ground_truth_boxes :: "32 word list"

definition default_iou_thresholds :: "real list" where
  "default_iou_thresholds = map (\<lambda>x. real x / 100) [50, 55, 60, 65, 70, 75, 80, 85, 90, 95]"

text \<open>\<^verbatim>\<open>_BoxRecall.__init__\<close>; an absent or empty \<^verbatim>\<open>iou_thresholds\<close> selects the default.\<close>

definition recall_init ::
  "int list \<Rightarrow> real list option \<Rightarrow> (real \<times> real) option \<Rightarrow> int \<Rightarrow> error + recall_metric" where
  "recall_init class_ids0 iou_thresholds0 area_range0 max_detections0 =
     (let iou_thresholds1 = (case iou_thresholds0 of
                               None \<Rightarrow> default_iou_thresholds
                             | Some ts \<Rightarrow> if ts = [] then default_iou_thresholds else ts);
          num_thresholds = length iou_thresholds1;
          num_categories = length class_ids0
      in if list_ex (\<lambda>c. c < 0) class_ids0 then Inl (ValueError ClassIdsPositive)
         else Inr \<lparr>class_ids = class_ids0, iou_thresholds = iou_thresholds1,
                   area_range = area_range0, max_detections = max_detections0,
                   true_positives = replicate num_thresholds (replicate num_categories 0),
                   ground_truth_boxes = replicate num_categories 0\<rparr>)"

text \<open>\<^verbatim>\<open>reset_state\<close>: both accumulators become \<^verbatim>\<open>zeros_like\<close> themselves.\<close>

definition recall_reset_state :: "recall_metric \<Rightarrow> recall_metric" where
  "recall_reset_state m =
     m\<lparr>true_positives := map (map (\<lambda>_. 0)) (true_positives m),
       ground_truth_boxes := map (\<lambda>_. 0) (ground_truth_boxes m)\<rparr>"

text \<open>\<^verbatim>\<open>tf.tensor_scatter_nd_add\<close> with a single index, on a vector and on a matrix.\<close>

definition scatter_add1 :: "32 word list \<Rightarrow> nat \<Rightarrow> 32 word \<Rightarrow> 32 word list" where
  "scatter_add1 xs k v = xs[k := xs ! k + v]"

definition scatter_add2 :: "32 word list list \<Rightarrow> nat \<times> nat \<Rightarrow> 32 word \<Rightarrow> 32 word list list" where
  "scatter_add2 xss indices v =
     (case indices of (t, k) \<Rightarrow> xss[t := scatter_add1 (xss ! t) k v])"

text \<open>The number of matched predictions: entries of \<^verbatim>\<open>pred_matches\<close> other than -1.\<close>

definition true_positives_sum :: "int list \<Rightarrow> 32 word" where
  "true_positives_sum pred_matches = sum_list (map (\<lambda>p. if p \<noteq> - 1 then 1 else 0) pred_matches)"

text \<open>The area filter that both variants apply when \<^verbatim>\<open>area_range\<close> is given.\<close>

definition area_filter :: "recall_utils \<Rightarrow> recall_metric \<Rightarrow> bounding_boxes \<Rightarrow> bounding_boxes" where
  "area_filter u m b =
     (case area_range m of
        None \<Rightarrow> b
      | Some r \<Rightarrow> filter_boxes_by_area_range u b (fst r) (snd r))"

text \<open>\<^verbatim>\<open>assign_add\<close> on the two accumulators.\<close>

definition assign_add :: "recall_metric \<Rightarrow> 32 word list list \<times> 32 word list \<Rightarrow> recall_metric" where
  "assign_add m updates =
     m\<lparr>true_positives := map2 (map2 (+)) (true_positives m) (fst updates),
       ground_truth_boxes := map2 (+) (ground_truth_boxes m) (snd updates)\<rparr>"

text \<open>
  \<^verbatim>\<open>_BoxRecall.update_state\<close> of \<^verbatim>\<open>recall.py\<close>. The result pairs the exception raised, if
  any, with the metric object after the call.

  The message of the rank check reads the attribute \<^verbatim>\<open>ranks\<close> of a tensor shape, which
  has no such attribute, so building the message ends in an \<^verbatim>\<open>AttributeError\<close>.

  For batched arguments the function goes on to \<^verbatim>\<open>num_images = tf.shape(y_true)[0]\<close>.
  There \<^verbatim>\<open>y_true\<close> is the dictionary of boxes and classes (the rank check above has just
  read \<^verbatim>\<open>y_true["boxes"]\<close>), which \<^verbatim>\<open>tf.shape\<close> cannot convert to a tensor: while the
  function is traced the call ends in a \<^verbatim>\<open>TypeError\<close>, and the loops and the two
  \<^verbatim>\<open>assign_add\<close> after it are never reached.
\<close>

definition recall_update_state ::
  "recall_utils \<Rightarrow> recall_metric \<Rightarrow> y_input \<Rightarrow> y_input \<Rightarrow> error option \<times> recall_metric" where
  "recall_update_state u m y_true y_pred =
     (case validate_format u y_true of
        Some e \<Rightarrow> (Some e, m)
      | None \<Rightarrow>
     (case validate_format u y_pred of
        Some e \<Rightarrow> (Some e, m)
      | None \<Rightarrow>
     (case (y_true, y_pred) of
        (Batched yt, Batched yp) \<Rightarrow>
          (let y_true1 = convert_format u (to_dense u yt);
               y_pred1 = sort_bounding_boxes u (convert_format u (to_dense u yp))
           in (Some (TypeError ''Failed to convert elements to Tensor''), m))
      | _ \<Rightarrow> (Some (AttributeError ''ranks''), m))))"

text \<open>
  \<^verbatim>\<open>InGraphBoxRecall.update_state\<close> of \<^verbatim>\<open>in_graph_recall.py\<close>, the benchmark variant, with
  its three nested loops, innermost first. It takes the number of images from
  \<^verbatim>\<open>tf.shape(y_true["classes"])[0]\<close>, and it does not sort the predictions of the batch
  before the loop.
\<close>

definition in_graph_threshold_loop ::
  "recall_utils \<Rightarrow> recall_metric \<Rightarrow> real list list \<Rightarrow> nat \<Rightarrow> 32 word list list \<Rightarrow> 32 word list list" where
  "in_graph_threshold_loop u m ious k_i tp_update =
     foldl (\<lambda>tp t_i.
              let threshold = iou_thresholds m ! t_i;
                  pred_matches = match_boxes u ious threshold
              in scatter_add2 tp (t_i, k_i) (true_positives_sum pred_matches))
       tp_update [0..<length (iou_thresholds m)]"

definition in_graph_category_loop ::
  "recall_utils \<Rightarrow> recall_metric \<Rightarrow> bounding_boxes \<Rightarrow> bounding_boxes \<Rightarrow>
   32 word list list \<times> 32 word list \<Rightarrow> 32 word list list \<times> 32 word list" where
  "in_graph_category_loop u m y_true_for_image y_pred_for_image updates =
     foldl (\<lambda>(tp, gt) k_i.
              let category = real_of_int (class_ids m ! k_i);
                  category_filtered_y_pred = filter_boxes u y_pred_for_image category;
                  detections =
                    (if max_detections m < int (length (classes category_filtered_y_pred))
                     then slice_boxes u category_filtered_y_pred (max_detections m)
                     else category_filtered_y_pred);
                  ground_truths = filter_boxes u y_true_for_image category;
                  ious = compute_iou u (boxes ground_truths) (boxes detections)
              in (in_graph_threshold_loop u m ious k_i tp,
                  scatter_add1 gt k_i (of_nat (length (classes ground_truths)))))
       updates [0..<length (class_ids m)]"

definition in_graph_image_loop ::
  "recall_utils \<Rightarrow> recall_metric \<Rightarrow> bounding_boxes list \<Rightarrow> bounding_boxes list \<Rightarrow>
   32 word list list \<times> 32 word list \<Rightarrow> 32 word list list \<times> 32 word list" where
  "in_graph_image_loop u m y_true y_pred updates =
     foldl (\<lambda>upd img.
              let y_true_for_image = get_boxes_for_image u y_true img;
                  y_pred_for_image = order_by_confidence u (get_boxes_for_image u y_pred img)
              in in_graph_category_loop u m (area_filter u m y_true_for_image)
                   (area_filter u m y_pred_for_image) upd)
       updates [0..<length y_true]"

definition in_graph_update_state ::
  "recall_utils \<Rightarrow> recall_metric \<Rightarrow> y_input \<Rightarrow> y_input \<Rightarrow> error option \<times> recall_metric" where
  "in_graph_update_state u m y_true y_pred =
     (case validate_format u y_true of
        Some e \<Rightarrow> (Some e, m)
      | None \<Rightarrow>
     (case validate_format u y_pred of
        Some e \<Rightarrow> (Some e, m)
      | None \<Rightarrow>
     (case (y_true, y_pred) of
        (Batched yt, Batched yp) \<Rightarrow>
          (let y_true1 = convert_format u (to_dense u yt);
               y_pred1 = convert_format u (to_dense u yp);
               zeros = (map (map (\<lambda>_. 0)) (true_positives m), map (\<lambda>_. 0) (ground_truth_boxes m))
           in (None, assign_add m (in_graph_image_loop u m y_true1 y_pred1 zeros)))
      | _ \<Rightarrow> (Some (AttributeError ''ranks''), m))))"

text \<open>
  \<^verbatim>\<open>_BoxRecall.result\<close>. The division by the number of present categories is reached
  only when that number is not zero.
\<close>

definition n_present_categories :: "recall_metric \<Rightarrow> real" where
  "n_present_categories m =
     real_of_int (sint (sum_list (map (\<lambda>g. if g \<noteq> 0 then 1 else 0 :: 32 word)
                                   (ground_truth_boxes m))))"

definition recalls_per_threshold :: "recall_metric \<Rightarrow> real list" where
  "recalls_per_threshold m =
     map (\<lambda>row. sum_list (map2 (\<lambda>tp gt. divide_no_nan (real_of_int (sint tp)) (real_of_int (sint gt)))
                            row (ground_truth_boxes m))
                / n_present_categories m)
       (true_positives m)"

definition recall_result :: "recall_metric \<Rightarrow> tf_float" where
  "recall_result m =
     (if n_present_categories m = 0 then Finite 0
      else reduce_mean (recalls_per_threshold m))"

section \<open>The mean box count delta metric\<close>

record mean_box_count_delta =
  delta_sum :: real
  samples :: real

definition mbcd_init :: mean_box_count_delta where
  "mbcd_init = \<lparr>delta_sum = 0, samples = 0\<rparr>"

definition mbcd_reset_state :: "mean_box_count_delta \<Rightarrow> mean_box_count_delta" where
  "mbcd_reset_state m = m\<lparr>delta_sum := 0, samples := 0\<rparr>"

text \<open>\<^verbatim>\<open>MeanBoxCountDelta.result\<close>: a plain division.\<close>

definition mbcd_result :: "mean_box_count_delta \<Rightarrow> tf_float" where
  "mbcd_result m = tf_divide (delta_sum m) (samples m)"

section \<open>Quantities the claims speak about\<close>

text \<open>The centre of a corner-format box.\<close>

definition box_center :: "box \<Rightarrow> real \<times> real" where
  "box_center b = (case b of (y_min, x_min, y_max, x_max) \<Rightarrow> ((y_min + y_max) / 2, (x_min + x_max) / 2))"

text \<open>
  The anchor count per level in the words of the specification, for a level of stride
  \<open>s\<close>: \<open>ceil(h/stride) * ceil(w/stride) * len(sizes) * len(aspect_ratios)\<close>.
\<close>

definition claimed_anchor_count :: "single_anchor_generator \<Rightarrow> nat \<times> nat \<Rightarrow> real \<Rightarrow> nat" where
  "claimed_anchor_count g image_size s =
     nat \<lceil>real (fst image_size) / s\<rceil> * nat \<lceil>real (snd image_size) / s\<rceil>
       * length (sizes g) * length (aspect_ratios g)"

text \<open>
  The result of the recall metric in the words of the specification: the categories with
  a non-zero ground-truth count are the present ones; the recall of a threshold is the
  sum over the present categories of true positives by ground-truth count, divided by
  the number of present categories; the result is the mean over the thresholds, and 0
  when no category is present.
\<close>

definition present_categories :: "recall_metric \<Rightarrow> nat list" where
  "present_categories m =
     filter (\<lambda>k. ground_truth_boxes m ! k \<noteq> 0) [0..<length (ground_truth_boxes m)]"

definition spec_recall_at :: "recall_metric \<Rightarrow> nat \<Rightarrow> real" where
  "spec_recall_at m t =
     (\<Sum>k\<leftarrow>present_categories m.
        real_of_int (sint (true_positives m ! t ! k)) / real_of_int (sint (ground_truth_boxes m ! k)))
     / real (length (present_categories m))"

definition spec_result :: "recall_metric \<Rightarrow> real" where
  "spec_result m =
     (if present_categories m = [] then 0
      else (\<Sum>t\<leftarrow>[0..<length (true_positives m)]. spec_recall_at m t)
           / real (length (true_positives m)))"

text \<open>
  The shape of the accumulators that \<^verbatim>\<open>__init__\<close> creates: at least one threshold row,
  every row as long as the vector of ground-truth counts, whose length fits \<^verbatim>\<open>int32\<close>.
\<close>

definition wf_state :: "recall_metric \<Rightarrow> bool" where
  "wf_state m \<longleftrightarrow>
     true_positives m \<noteq> []
     \<and> list_all (\<lambda>row. length row = length (ground_truth_boxes m)) (true_positives m)
     \<and> length (ground_truth_boxes m) < 2 ^ 31"

text \<open>
  What one call of \<^verbatim>\<open>update_state\<close> is to add, written per image, category and threshold: the
  ground truths of the image for a category, after the area filter and the category
  filter; its detections, cut to \<^verbatim>\<open>max_detections\<close>; the number of detections matched at
  a threshold; and the state in which every true-positive cell has received its matched
  counts and every ground-truth entry one count per image.
\<close>

definition ground_truths_for ::
  "recall_utils \<Rightarrow> recall_metric \<Rightarrow> bounding_boxes list \<Rightarrow> nat \<Rightarrow> nat \<Rightarrow> bounding_boxes" where
  "ground_truths_for u m y_true img k_i =
     filter_boxes u (area_filter u m (get_boxes_for_image u y_true img))
       (real_of_int (class_ids m ! k_i))"

definition detections_for ::
  "recall_utils \<Rightarrow> recall_metric \<Rightarrow> bounding_boxes list \<Rightarrow> nat \<Rightarrow> nat \<Rightarrow> bounding_boxes" where
  "detections_for u m y_pred img k_i =
     (let category_filtered =
            filter_boxes u
              (area_filter u m (order_by_confidence u (get_boxes_for_image u y_pred img)))
              (real_of_int (class_ids m ! k_i))
      in if max_detections m < int (length (classes category_filtered))
         then slice_boxes u category_filtered (max_detections m)
         else category_filtered)"

definition matched_count ::
  "recall_utils \<Rightarrow> recall_metric \<Rightarrow> bounding_boxes list \<Rightarrow> bounding_boxes list \<Rightarrow>
   nat \<Rightarrow> nat \<Rightarrow> nat \<Rightarrow> 32 word" where
  "matched_count u m y_true y_pred img k_i t_i =
     true_positives_sum
       (match_boxes u
          (compute_iou u (boxes (ground_truths_for u m y_true img k_i))
                         (boxes (detections_for u m y_pred img k_i)))
          (iou_thresholds m ! t_i))"

definition ground_truth_count ::
  "recall_utils \<Rightarrow> recall_metric \<Rightarrow> bounding_boxes list \<Rightarrow> nat \<Rightarrow> nat \<Rightarrow> 32 word" where
  "ground_truth_count u m y_true img k_i =
     of_nat (length (classes (ground_truths_for u m y_true img k_i)))"

definition counted_state ::
  "recall_utils \<Rightarrow> recall_metric \<Rightarrow> bounding_boxes list \<Rightarrow> bounding_boxes list \<Rightarrow> recall_metric" where
  "counted_state u m y_true y_pred =
     m\<lparr>true_positives :=
         map (\<lambda>t_i. map (\<lambda>k_i. true_positives m ! t_i ! k_i
                          + (\<Sum>img\<leftarrow>[0..<length y_true]. matched_count u m y_true y_pred img k_i t_i))
                    [0..<length (class_ids m)])
           [0..<length (iou_thresholds m)],
       ground_truth_boxes :=
         map (\<lambda>k_i. ground_truth_boxes m ! k_i
                    + (\<Sum>img\<leftarrow>[0..<length y_true]. ground_truth_count u m y_true img k_i))
           [0..<length (class_ids m)]\<rparr>"

text \<open>
  The shape of a pair of accumulators of a metric, and the pair with an amount added
  to every cell.
\<close>

definition accumulator_shape :: "recall_metric \<Rightarrow> 32 word list list \<times> 32 word list \<Rightarrow> bool" where
  "accumulator_shape m upd \<longleftrightarrow>
     length (fst upd) = length (iou_thresholds m)
     \<and> list_all (\<lambda>row. length row = length (class_ids m)) (fst upd)
     \<and> length (snd upd) = length (class_ids m)"

definition cells_add ::
  "nat \<Rightarrow> nat \<Rightarrow> 32 word list list \<times> 32 word list \<Rightarrow> (nat \<Rightarrow> nat \<Rightarrow> 32 word) \<Rightarrow> (nat \<Rightarrow> 32 word)
   \<Rightarrow> 32 word list list \<times> 32 word list" where
  "cells_add T K upd c g =
     (map (\<lambda>t. map (\<lambda>k. fst upd ! t ! k + c t k) [0..<K]) [0..<T],
      map (\<lambda>k. snd upd ! k + g k) [0..<K])"

section \<open>Clipping\<close>

lemma clip_clamps: "clip v d = max 0 (min d v)"
  by (simp add: clip_def max.commute min.commute)

lemma concat4_map:
  "concat4 (map f a1) (map g a2) (map f a3) (map g a4)
     = map (\<lambda>(y1, x1, y2, x2). (f y1, g x1, f y2, g x2)) (concat4 a1 a2 a3 a4)"
proof -
  have inner: "zip (map f a3) (map g a4) = map (\<lambda>(y2, x2). (f y2, g x2)) (zip a3 a4)"
    by (rule zip_map_map)
  have middle: "zip (map g a2) (map (\<lambda>(y2, x2). (f y2, g x2)) (zip a3 a4))
      = map (\<lambda>(x1, y2, x2). (g x1, f y2, g x2)) (zip a2 (zip a3 a4))"
    by (simp add: zip_map_map case_prod_beta)
  have outer: "zip (map f a1) (map (\<lambda>(x1, y2, x2). (g x1, f y2, g x2)) (zip a2 (zip a3 a4)))
      = map (\<lambda>(y1, x1, y2, x2). (f y1, g x1, f y2, g x2)) (zip a1 (zip a2 (zip a3 a4)))"
    by (simp add: zip_map_map case_prod_beta)
  show ?thesis
    unfolding concat4_def inner middle outer ..
qed

lemma single_call_clipped:
  assumes "clip_boxes g" and "single_call g (image_height, image_width) = Inr anchors"
  shows "\<exists>raw. single_call (g\<lparr>clip_boxes := False\<rparr>) (image_height, image_width) = Inr raw
           \<and> anchors = map (\<lambda>(y1, x1, y2, x2).
                               (clip y1 (real image_height), clip x1 (real image_width),
                                clip y2 (real image_height), clip x2 (real image_width))) raw"
  using assms
  by (auto simp: single_call_def Let_def concat4_map split: sum.splits)

text \<open>
  Claim C6. For a generator with \<^verbatim>\<open>clip_boxes\<close> enabled and positive aspect ratios, every
  anchor returned is the anchor of the same generator without clipping, in the same
  position of the output, with each of its four coordinates clamped on its own: a y
  coordinate \<open>v\<close> becomes \<open>max 0 (min height v)\<close>, an x coordinate \<open>max 0 (min width v)\<close>.
  Hence every y coordinate lies between 0 and the image height and every x coordinate
  between 0 and the image width.
\<close>

theorem clip_boxes_clamps_into_image:
  assumes "clip_boxes g"
    and "\<forall>a \<in> set (aspect_ratios g). 0 < a"
    and "single_call g (image_height, image_width) = Inr anchors"
  shows "\<exists>raw. single_call (g\<lparr>clip_boxes := False\<rparr>) (image_height, image_width) = Inr raw
     \<and> list_all2
         (\<lambda>(y1, x1, y2, x2) (y_min, x_min, y_max, x_max).
            y_min = max 0 (min (real image_height) y1) \<and> x_min = max 0 (min (real image_width) x1)
          \<and> y_max = max 0 (min (real image_height) y2) \<and> x_max = max 0 (min (real image_width) x2)
          \<and> 0 \<le> y_min \<and> y_min \<le> real image_height \<and> 0 \<le> x_min \<and> x_min \<le> real image_width
          \<and> 0 \<le> y_max \<and> y_max \<le> real image_height \<and> 0 \<le> x_max \<and> x_max \<le> real image_width)
         raw anchors"
proof -
  from single_call_clipped [OF assms(1,3)] obtain raw where
    raw: "single_call (g\<lparr>clip_boxes := False\<rparr>) (image_height, image_width) = Inr raw"
    and anchors: "anchors = map (\<lambda>(y1, x1, y2, x2).
                               (clip y1 (real image_height), clip x1 (real image_width),
                                clip y2 (real image_height), clip x2 (real image_width))) raw"
    by blast
  have "list_all2
         (\<lambda>(y1, x1, y2, x2) (y_min, x_min, y_max, x_max).
            y_min = max 0 (min (real image_height) y1) \<and> x_min = max 0 (min (real image_width) x1)
          \<and> y_max = max 0 (min (real image_height) y2) \<and> x_max = max 0 (min (real image_width) x2)
          \<and> 0 \<le> y_min \<and> y_min \<le> real image_height \<and> 0 \<le> x_min \<and> x_min \<le> real image_width
          \<and> 0 \<le> y_max \<and> y_max \<le> real image_height \<and> 0 \<le> x_max \<and> x_max \<le> real image_width)
         raw anchors"
    unfolding anchors list_all2_map2
    by (rule list_all2_refl) (auto simp: clip_clamps)
  with raw show ?thesis by blast
qed

theorem clip_boxes_clamps_into_image_witness:
  "single_call \<lparr>scale = 1, sizes = [8, 64], aspect_ratios = [1], stride = [16], clip_boxes = True\<rparr>
     (16, 16) = Inr [(4, 4, 12, 12), (0, 0, 16, 16)]
   \<and> single_call \<lparr>scale = 1, sizes = [8, 64], aspect_ratios = [1], stride = [16], clip_boxes = False\<rparr>
     (16, 16) = Inr [(4, 4, 12, 12), (- 24, - 24, 40, 40)]"
proof -
  let ?g = "\<lparr>scale = 1, sizes = [8, 64], aspect_ratios = [1], stride = [16], clip_boxes = True\<rparr>"
  have half: "\<lceil>1 / 2 :: real\<rceil> = 1"
    by (simp add: ceiling_eq_iff)
  have run: "single_call ?g (16, 16) = Inr [(4, 4, 12, 12), (0, 0, 16, 16)]"
    by (simp add: single_call_def broadcast2_def as_scalar_def tf_range_def grid_rows_def
        grid_cols_def concat4_def clip_def Let_def half)
  have on: "clip_boxes ?g" and pos: "\<forall>a \<in> set (aspect_ratios ?g). 0 < a"
    by simp_all
  have off: "single_call (?g\<lparr>clip_boxes := False\<rparr>) (16, 16)
               = Inr [(4, 4, 12, 12), (- 24, - 24, 40, 40)]"
    by (simp add: single_call_def broadcast2_def as_scalar_def tf_range_def grid_rows_def
        grid_cols_def concat4_def Let_def half)
  from clip_boxes_clamps_into_image [OF on pos run] off run
  show ?thesis by simp
qed

section \<open>Construction rejects mismatched sizes and strides\<close>

lemma broadcast_keys:
  assumes "broadcast_parameter_to_scales p name scales1 = Inr d"
  shows "set (map fst d) = set (map fst scales1)"
proof -
  from assms have "sort (map fst scales1) = sort (map fst d)"
    by (auto simp: broadcast_parameter_to_scales_def split: sum.splits if_splits)
  then have "set (sort (map fst scales1)) = set (sort (map fst d))" by simp
  then show ?thesis by simp
qed

lemma validate_first_mismatch:
  assumes "set (map fst sizes1) \<subseteq> set (map fst strides1)"
    and "(level, sz) \<in> set sizes1" and "map_of strides1 level = Some st"
    and "length sz \<noteq> length st"
  shows "\<exists>lvl sz' st'. validate_sizes_and_strides sizes1 strides1
            = Inl (ValueError (SizesStridesLength lvl sz' st'))
          \<and> (lvl, sz') \<in> set sizes1 \<and> map_of strides1 lvl = Some st' \<and> length sz' \<noteq> length st'"
  using assms
proof (induction sizes1)
  case Nil
  then show ?case by simp
next
  case (Cons a rest)
  obtain l s where a: "a = (l, s)" by (cases a)
  from Cons.prems(1) a have "l \<in> fst ` set strides1" by simp
  then obtain t where t: "map_of strides1 l = Some t"
    by (metis domD dom_map_of_conv_image_fst)
  show ?case
  proof (cases "length s = length t")
    case False
    with a t show ?thesis by auto
  next
    case True
    with Cons.prems a t have "(level, sz) \<in> set rest" by auto
    moreover from Cons.prems(1) have "set (map fst rest) \<subseteq> set (map fst strides1)" by simp
    ultimately obtain lvl sz' st' where
      "validate_sizes_and_strides rest strides1 = Inl (ValueError (SizesStridesLength lvl sz' st'))"
      "(lvl, sz') \<in> set rest" "map_of strides1 lvl = Some st'" "length sz' \<noteq> length st'"
      using Cons.IH Cons.prems(3,4) by blast
    with a t True show ?thesis by auto
  qed
qed

text \<open>
  Claim C7. When the three broadcasts of the constructor succeed and some level of the
  broadcast \<^verbatim>\<open>sizes\<close> has a length different from that of its \<^verbatim>\<open>strides\<close>, the
  constructor itself ends in the \<^verbatim>\<open>ValueError\<close> of \<^verbatim>\<open>_validate_sizes_and_strides\<close>,
  whose message names a level with such a mismatch; no generator object is returned.
  The example of the specification, level \<^verbatim>\<open>l1\<close> with five sizes and three strides, is
  the concrete instance.
\<close>

theorem mismatch_raises_at_construction:
  assumes "pack_parameter_to_dict scales0 ''scales'' = Inr scales1"
    and "broadcast_parameter_to_scales sizes0 ''sizes'' scales1 = Inr sizes1"
    and "broadcast_parameter_to_scales strides0 ''strides'' scales1 = Inr strides1"
    and "(level, sz) \<in> set sizes1" and "map_of strides1 level = Some st"
    and "length sz \<noteq> length st"
  shows "\<exists>lvl sz' st'. init format0 sizes0 scales0 aspect_ratios0 strides0 clip0
            = Inl (ValueError (SizesStridesLength lvl sz' st'))
          \<and> (lvl, sz') \<in> set sizes1 \<and> map_of strides1 lvl = Some st' \<and> length sz' \<noteq> length st'"
proof -
  have "set (map fst sizes1) \<subseteq> set (map fst strides1)"
    using broadcast_keys [OF assms(2)] broadcast_keys [OF assms(3)] by simp
  from validate_first_mismatch [OF this assms(4,5,6)] obtain lvl sz' st' where
    v: "validate_sizes_and_strides sizes1 strides1 = Inl (ValueError (SizesStridesLength lvl sz' st'))"
    and r: "(lvl, sz') \<in> set sizes1" "map_of strides1 lvl = Some st'" "length sz' \<noteq> length st'"
    by blast
  have "init format0 sizes0 scales0 aspect_ratios0 strides0 clip0
          = Inl (ValueError (SizesStridesLength lvl sz' st'))"
    by (simp add: init_def assms(1,2,3) v)
  with r show ?thesis by blast
qed

theorem mismatch_raises_at_construction_witness:
  "init ''yxyx'' (PDict [(''l1'', [32, 64, 128, 256, 512])]) (PDict [(''l1'', 1)])
        (PList [0.5, 1, 2]) (PDict [(''l1'', [5, 10, 100])]) False
     = Inl (ValueError (SizesStridesLength ''l1'' [32, 64, 128, 256, 512] [5, 10, 100]))"
proof -
  have p: "pack_parameter_to_dict (PDict [(''l1'', 1::real)]) ''scales'' = Inr [(''l1'', 1)]"
    by (simp add: pack_parameter_to_dict_def)
  have s: "broadcast_parameter_to_scales (PDict [(''l1'', [32, 64, 128, 256, 512::real])]) ''sizes''
             [(''l1'', 1::real)] = Inr [(''l1'', [32, 64, 128, 256, 512])]"
    by (simp add: broadcast_parameter_to_scales_def)
  have t: "broadcast_parameter_to_scales (PDict [(''l1'', [5, 10, 100::real])]) ''strides''
             [(''l1'', 1::real)] = Inr [(''l1'', [5, 10, 100])]"
    by (simp add: broadcast_parameter_to_scales_def)
  from mismatch_raises_at_construction [OF p s t, of "''l1''" "[32, 64, 128, 256, 512]"
      "[5, 10, 100]" "''yxyx''" "PList [0.5, 1, 2]" False]
  show ?thesis by auto
qed

section \<open>Grid size and cell centres\<close>

lemma tf_range_grid:
  assumes "0 < s" and "s / 2 \<le> d"
  shows "tf_range (0.5 * s) d s = Inr (map (\<lambda>i. s * (1 / 2 + real i)) [0..<nat \<lceil>d / s - 1 / 2\<rceil>])"
proof -
  have q: "(d - 0.5 * s) / s = d / s - 1 / 2"
    using assms(1) by (simp add: field_simps)
  have "0 \<le> d / s - 1 / 2"
    using assms by (simp add: field_simps)
  then have a: "\<bar>(d - 0.5 * s) / s\<bar> = d / s - 1 / 2"
    using q by simp
  have "\<not> d < 0.5 * s" using assms(2) by simp
  then show ?thesis
    unfolding tf_range_def a using assms(1) by (simp add: algebra_simps)
qed

lemma concat_uniform_length:
  "\<forall>xs \<in> set xss. length xs = m \<Longrightarrow> length (concat xss) = length xss * m"
  by (induction xss) auto

lemma concat_uniform_nth:
  "\<forall>xs \<in> set xss. length xs = m \<Longrightarrow> i < length xss \<Longrightarrow> k < m \<Longrightarrow>
     concat xss ! (i * m + k) = xss ! i ! k"
proof (induction xss arbitrary: i)
  case Nil
  then show ?case by simp
next
  case (Cons xs xss)
  show ?case
  proof (cases i)
    case 0
    with Cons.prems show ?thesis by (simp add: nth_append)
  next
    case (Suc i')
    with Cons.prems have "concat xss ! (i' * m + k) = xss ! i' ! k"
      using Cons.IH [of i'] by simp
    with Suc Cons.prems show ?thesis by (simp add: nth_append)
  qed
qed

lemma grid_rows_length: "length (grid_rows f cy cx half) = length cy * length cx * length half"
proof -
  have inner: "\<And>y. length (concat (map (\<lambda>x. map (\<lambda>h. f y h) half) cx)) = length cx * length half"
    by (subst concat_uniform_length [where m = "length half"]) auto
  show ?thesis
    unfolding grid_rows_def
    by (subst concat_uniform_length [where m = "length cx * length half"]) (auto simp: inner)
qed

lemma grid_cols_length: "length (grid_cols f cy cx half) = length cy * length cx * length half"
proof -
  have inner: "\<And>y. length (concat (map (\<lambda>x. map (\<lambda>h. f x h) half) cx)) = length cx * length half"
    by (subst concat_uniform_length [where m = "length half"]) auto
  show ?thesis
    unfolding grid_cols_def
    by (subst concat_uniform_length [where m = "length cx * length half"]) (auto simp: inner)
qed

lemma cell_index:
  assumes "j < (n::nat)" and "k < m"
  shows "(i * n + j) * m + k = i * (n * m) + (j * m + k)" and "j * m + k < n * m"
proof -
  show "(i * n + j) * m + k = i * (n * m) + (j * m + k)"
    by (simp add: algebra_simps)
  have "j * m + k < j * m + m" using assms(2) by simp
  also have "\<dots> = (j + 1) * m" by simp
  also have "\<dots> \<le> n * m" using assms(1) by (intro mult_le_mono1) simp
  finally show "j * m + k < n * m" .
qed

lemma grid_rows_nth:
  assumes "i < length cy" and "j < length cx" and "k < length half"
  shows "grid_rows f cy cx half ! ((i * length cx + j) * length half + k) = f (cy ! i) (half ! k)"
proof -
  let ?row = "\<lambda>y. concat (map (\<lambda>x. map (\<lambda>h. f y h) half) cx)"
  have len: "\<And>y. length (?row y) = length cx * length half"
    by (subst concat_uniform_length [where m = "length half"]) auto
  have "grid_rows f cy cx half ! (i * (length cx * length half) + (j * length half + k))
          = map ?row cy ! i ! (j * length half + k)"
    unfolding grid_rows_def
    using assms cell_index(2) [OF assms(2,3)]
    by (intro concat_uniform_nth) (auto simp: len)
  also have "\<dots> = ?row (cy ! i) ! (j * length half + k)"
    using assms(1) by simp
  also have "\<dots> = map (\<lambda>x. map (\<lambda>h. f (cy ! i) h) half) cx ! j ! k"
    using assms by (intro concat_uniform_nth) auto
  also have "\<dots> = f (cy ! i) (half ! k)"
    using assms by simp
  finally show ?thesis
    by (simp add: cell_index(1) [OF assms(2,3)])
qed

lemma grid_cols_nth:
  assumes "i < length cy" and "j < length cx" and "k < length half"
  shows "grid_cols f cy cx half ! ((i * length cx + j) * length half + k) = f (cx ! j) (half ! k)"
proof -
  let ?row = "\<lambda>y::real. concat (map (\<lambda>x. map (\<lambda>h. f x h) half) cx)"
  have len: "\<And>y. length (?row y) = length cx * length half"
    by (subst concat_uniform_length [where m = "length half"]) auto
  have "grid_cols f cy cx half ! (i * (length cx * length half) + (j * length half + k))
          = map ?row cy ! i ! (j * length half + k)"
    unfolding grid_cols_def
    using assms cell_index(2) [OF assms(2,3)]
    by (intro concat_uniform_nth) (auto simp: len)
  also have "\<dots> = ?row (cy ! i) ! (j * length half + k)"
    using assms(1) by simp
  also have "\<dots> = map (\<lambda>x. map (\<lambda>h. f x h) half) cx ! j ! k"
    using assms by (intro concat_uniform_nth) auto
  also have "\<dots> = f (cx ! j) (half ! k)"
    using assms by simp
  finally show ?thesis
    by (simp add: cell_index(1) [OF assms(2,3)])
qed

lemma broadcast2_single:
  assumes "length xs = 1 \<or> length ys = 1"
  shows "\<exists>zs. broadcast2 f xs ys = Inr zs \<and> length zs = length xs * length ys"
  using assms by (auto simp: broadcast2_def)


lemma concat4_length:
  "length a2 = length a1 \<Longrightarrow> length a3 = length a1 \<Longrightarrow> length a4 = length a1 \<Longrightarrow>
   length (concat4 a1 a2 a3 a4) = length a1"
  by (simp add: concat4_def)

lemma concat4_nth:
  "length a2 = length a1 \<Longrightarrow> length a3 = length a1 \<Longrightarrow> length a4 = length a1 \<Longrightarrow>
   n < length a1 \<Longrightarrow> concat4 a1 a2 a3 a4 ! n = (a1 ! n, a2 ! n, a3 ! n, a4 ! n)"
  by (simp add: concat4_def)

lemma single_call_unclipped:
  assumes "stride g = [s]" and "0 < s" and "s / 2 \<le> real h" and "s / 2 \<le> real w"
    and "broadcast2 (\<lambda>a b. a / b) (map (\<lambda>z. z * scale g) (sizes g)) (map sqrt (aspect_ratios g)) = Inr hs"
    and "broadcast2 (\<lambda>a b. a * b) (map (\<lambda>z. z * scale g) (sizes g)) (map sqrt (aspect_ratios g)) = Inr ws"
  shows "single_call g (h, w) =
     (let cx = map (\<lambda>i. s * (1 / 2 + real i)) [0..<nat \<lceil>real w / s - 1 / 2\<rceil>];
          cy = map (\<lambda>i. s * (1 / 2 + real i)) [0..<nat \<lceil>real h / s - 1 / 2\<rceil>];
          hh = map (\<lambda>h. 0.5 * h) hs; hw = map (\<lambda>w. 0.5 * w) ws;
          y_min = grid_rows (\<lambda>c h. c - h) cy cx hh;
          y_max = grid_rows (\<lambda>c h. c + h) cy cx hh;
          x_min = grid_cols (\<lambda>c w. c - w) cy cx hw;
          x_max = grid_cols (\<lambda>c w. c + w) cy cx hw
      in if clip_boxes g
         then Inr (concat4 (map (\<lambda>v. clip v (real h)) y_min) (map (\<lambda>v. clip v (real w)) x_min)
                           (map (\<lambda>v. clip v (real h)) y_max) (map (\<lambda>v. clip v (real w)) x_max))
         else Inr (concat4 y_min x_min y_max x_max))"
  by (simp only: single_call_def Let_def fst_conv snd_conv assms(1,5,6) as_scalar_def
      list.case sum.case tf_range_grid [OF assms(2,3)] tf_range_grid [OF assms(2,4)])

text \<open>
  Claim C2, as amended. For a level of scalar stride \<open>s > 0\<close> and an image at least half
  a stride high and wide, whose \<^verbatim>\<open>sizes\<close> or \<^verbatim>\<open>aspect_ratios\<close> is a single value, the
  generator returns exactly \<open>gy * gx * len(sizes) * len(aspect_ratios)\<close> anchors, where
  \<open>gy = ceil(h/s - 1/2)\<close> and \<open>gx = ceil(w/s - 1/2)\<close> count the centres
  \<open>s * (0.5 + i)\<close> that lie below the image dimension; without clipping, the anchor at
  index \<open>(i * gx + j) * K + k\<close> is centred at \<open>(s * (0.5 + i), s * (0.5 + j))\<close>.
\<close>

theorem anchor_count_and_centers:
  assumes "stride g = [s]" and "0 < s" and "s / 2 \<le> real h" and "s / 2 \<le> real w"
    and "length (sizes g) = 1 \<or> length (aspect_ratios g) = 1"
  shows "\<exists>anchors. single_call g (h, w) = Inr anchors
      \<and> length anchors = nat \<lceil>real h / s - 1 / 2\<rceil> * nat \<lceil>real w / s - 1 / 2\<rceil>
                           * (length (sizes g) * length (aspect_ratios g))
      \<and> (\<not> clip_boxes g \<longrightarrow>
           (\<forall>i < nat \<lceil>real h / s - 1 / 2\<rceil>. \<forall>j < nat \<lceil>real w / s - 1 / 2\<rceil>.
              \<forall>k < length (sizes g) * length (aspect_ratios g).
                box_center (anchors ! ((i * nat \<lceil>real w / s - 1 / 2\<rceil> + j)
                                         * (length (sizes g) * length (aspect_ratios g)) + k))
                  = (s * (1 / 2 + real i), s * (1 / 2 + real j))))"
proof -
  let ?K = "length (sizes g) * length (aspect_ratios g)"
  let ?gy = "nat \<lceil>real h / s - 1 / 2\<rceil>" and ?gx = "nat \<lceil>real w / s - 1 / 2\<rceil>"
  let ?szs = "map (\<lambda>z. z * scale g) (sizes g)" and ?ars = "map sqrt (aspect_ratios g)"
  from assms(5) have one: "length ?szs = 1 \<or> length ?ars = 1" by simp
  from broadcast2_single [OF one, of "\<lambda>a b. a / b"] obtain hs where
    hs: "broadcast2 (\<lambda>a b. a / b) ?szs ?ars = Inr hs" "length hs = ?K" by auto
  from broadcast2_single [OF one, of "\<lambda>a b. a * b"] obtain ws where
    ws: "broadcast2 (\<lambda>a b. a * b) ?szs ?ars = Inr ws" "length ws = ?K" by auto
  define cx where "cx = map (\<lambda>i. s * (1 / 2 + real i)) [0..<?gx]"
  define cy where "cy = map (\<lambda>i. s * (1 / 2 + real i)) [0..<?gy]"
  define hh where "hh = map (\<lambda>h. 0.5 * h) hs"
  define hw where "hw = map (\<lambda>w. 0.5 * w) ws"
  define y_min where "y_min = grid_rows (\<lambda>c h. c - h) cy cx hh"
  define y_max where "y_max = grid_rows (\<lambda>c h. c + h) cy cx hh"
  define x_min where "x_min = grid_cols (\<lambda>c w. c - w) cy cx hw"
  define x_max where "x_max = grid_cols (\<lambda>c w. c + w) cy cx hw"
  have lens: "length cx = ?gx" "length cy = ?gy" "length hh = ?K" "length hw = ?K"
    by (simp_all add: cx_def cy_def hh_def hw_def hs ws)
  have glen: "length y_min = ?gy * ?gx * ?K" "length y_max = ?gy * ?gx * ?K"
    "length x_min = ?gy * ?gx * ?K" "length x_max = ?gy * ?gx * ?K"
    by (simp_all add: y_min_def y_max_def x_min_def x_max_def grid_rows_length grid_cols_length lens)
  have run: "single_call g (h, w) =
     (if clip_boxes g
      then Inr (concat4 (map (\<lambda>v. clip v (real h)) y_min) (map (\<lambda>v. clip v (real w)) x_min)
                        (map (\<lambda>v. clip v (real h)) y_max) (map (\<lambda>v. clip v (real w)) x_max))
      else Inr (concat4 y_min x_min y_max x_max))"
    unfolding single_call_unclipped [OF assms(1-4) hs(1) ws(1)] Let_def
      y_min_def y_max_def x_min_def x_max_def hh_def hw_def cx_def cy_def ..
  show ?thesis
  proof (cases "clip_boxes g")
    case True
    with run glen show ?thesis by (simp add: concat4_length)
  next
    case False
    have "box_center (concat4 y_min x_min y_max x_max ! ((i * ?gx + j) * ?K + k))
            = (s * (1 / 2 + real i), s * (1 / 2 + real j))"
      if ijk: "i < ?gy" "j < ?gx" "k < ?K" for i j k
    proof -
      let ?n = "(i * ?gx + j) * ?K + k"
      have n: "?n < ?gy * ?gx * ?K"
      proof -
        have "i * ?gx + j < i * ?gx + ?gx" using ijk(2) by simp
        also have "\<dots> = (i + 1) * ?gx" by simp
        also have "\<dots> \<le> ?gy * ?gx" using ijk(1) by (intro mult_le_mono1) simp
        finally have "i * ?gx + j < ?gy * ?gx" .
        from cell_index(2) [OF this ijk(3)] show ?thesis .
      qed
      have i': "i < length cy" and j': "j < length cx" and kh: "k < length hh" and kw: "k < length hw"
        using ijk lens by simp_all
      have y1: "y_min ! ?n = cy ! i - hh ! k"
        unfolding y_min_def using grid_rows_nth [OF i' j' kh, of "\<lambda>c h. c - h"] lens by simp
      have y2: "y_max ! ?n = cy ! i + hh ! k"
        unfolding y_max_def using grid_rows_nth [OF i' j' kh, of "\<lambda>c h. c + h"] lens by simp
      have x1: "x_min ! ?n = cx ! j - hw ! k"
        unfolding x_min_def using grid_cols_nth [OF i' j' kw, of "\<lambda>c h. c - h"] lens by simp
      have x2: "x_max ! ?n = cx ! j + hw ! k"
        unfolding x_max_def using grid_cols_nth [OF i' j' kw, of "\<lambda>c h. c + h"] lens by simp
      have c: "cy ! i = s * (1 / 2 + real i)" "cx ! j = s * (1 / 2 + real j)"
        using ijk by (simp_all add: cy_def cx_def)
      have "concat4 y_min x_min y_max x_max ! ?n = (y_min ! ?n, x_min ! ?n, y_max ! ?n, x_max ! ?n)"
        using n glen by (intro concat4_nth) simp_all
      then show ?thesis
        by (simp add: box_center_def y1 y2 x1 x2 c)
    qed
    with False run glen show ?thesis by (simp add: concat4_length)
  qed
qed

theorem anchor_count_and_centers_witness:
  "single_call \<lparr>scale = 1, sizes = [32], aspect_ratios = [1, 4], stride = [4], clip_boxes = False\<rparr>
      (10, 6)
     = Inr [(- 14, - 14, 18, 18), (- 6, - 30, 10, 34), (- 10, - 14, 22, 18), (- 2, - 30, 14, 34)]
   \<and> nat \<lceil>real (10::nat) / 4 - 1 / 2\<rceil> * nat \<lceil>real (6::nat) / 4 - 1 / 2\<rceil> * (1 * 2) = (4::nat)"
proof -
  let ?g = "\<lparr>scale = 1, sizes = [32], aspect_ratios = [1, 4], stride = [4], clip_boxes = False\<rparr>"
  have run: "single_call ?g (10, 6)
     = Inr [(- 14, - 14, 18, 18), (- 6, - 30, 10, 34), (- 10, - 14, 22, 18), (- 2, - 30, 14, 34)]"
    by (simp add: single_call_def broadcast2_def as_scalar_def tf_range_def grid_rows_def
        grid_cols_def concat4_def Let_def upt_rec)
  from anchor_count_and_centers [of ?g 4 10 6] run show ?thesis by simp
qed

text \<open>
  The count of claim C2 as stated, \<open>ceil(h/s) * ceil(w/s) * len(sizes) * len(aspect_ratios)\<close>,
  fails for a 10 by 10 image at stride 4: the centres 2 and 6 fit on each axis, 10 does
  not, so 4 anchors are returned where the formula gives 9.
\<close>

theorem claimed_anchor_count_counterexample:
  "map_sum id length
     (single_call \<lparr>scale = 1, sizes = [32], aspect_ratios = [1], stride = [4], clip_boxes = False\<rparr>
        (10, 10)) = Inr 4
   \<and> claimed_anchor_count
        \<lparr>scale = 1, sizes = [32], aspect_ratios = [1], stride = [4], clip_boxes = False\<rparr> (10, 10) 4 = 9
   \<and> map_sum id length
     (single_call \<lparr>scale = 1, sizes = [32], aspect_ratios = [1], stride = [4], clip_boxes = False\<rparr>
        (10, 10))
     \<noteq> Inr (claimed_anchor_count
        \<lparr>scale = 1, sizes = [32], aspect_ratios = [1], stride = [4], clip_boxes = False\<rparr> (10, 10) 4)"
  by (simp add: single_call_def broadcast2_def as_scalar_def tf_range_def grid_rows_def
      grid_cols_def concat4_def Let_def upt_rec claimed_anchor_count_def)

text \<open>
  Claim C3 asks for one anchor per pair of a size and an aspect ratio. The generator
  divides and multiplies the vector of sizes by the vector of square roots elementwise,
  so two sizes and two aspect ratios give two anchors per cell, size 32 at ratio 1 and
  size 64 at ratio 4, and not the four of the cross product.
\<close>

theorem pairs_not_cross_product:
  "single_call \<lparr>scale = 1, sizes = [32, 64], aspect_ratios = [1, 4], stride = [8], clip_boxes = False\<rparr>
      (8, 8)
     = Inr [(- 12, - 12, 20, 20), (- 12, - 60, 20, 68)]"
proof -
  have half: "\<lceil>1 / 2 :: real\<rceil> = 1"
    by (simp add: ceiling_eq_iff)
  show ?thesis
    by (simp add: single_call_def broadcast2_def as_scalar_def tf_range_def grid_rows_def
        grid_cols_def concat4_def Let_def half)
qed

section \<open>Construction from flat lists\<close>

lemma digit_char_code: "d < 10 \<Longrightarrow> of_char (digit_char d) = 48 + d"
proof -
  assume "d < 10"
  moreover have "{..<10::nat} = {0, 1, 2, 3, 4, 5, 6, 7, 8, 9}" by auto
  ultimately have "d \<in> {0, 1, 2, 3, 4, 5, 6, 7, 8, 9}" by blast
  then show ?thesis
    by (auto simp: digit_char_def)
qed

lemma digits_value_string_of_nat:
  "foldl (\<lambda>a c. 10 * a + (of_char c - 48)) 0 (string_of_nat n) = n"
proof (induction n rule: string_of_nat.induct)
  case (1 n)
  show ?case
  proof (cases "n < 10")
    case True
    then show ?thesis
      by (subst string_of_nat.simps) (simp add: digit_char_code)
  next
    case False
    have "n mod 10 < 10" by simp
    with False 1 show ?thesis
      by (subst string_of_nat.simps) (simp add: digit_char_code)
  qed
qed

lemma string_of_nat_inj: "string_of_nat a = string_of_nat b \<Longrightarrow> a = b"
  by (metis digits_value_string_of_nat)

lemma level_name_inj: "level_name a = level_name b \<longleftrightarrow> a = b"
  by (auto simp: level_name_def dest: string_of_nat_inj)

lemma update_fresh: "k \<notin> fst ` set al \<Longrightarrow> AList.update k v al = al @ [(k, v)]"
  by (induction al) auto

lemma foldl_update_fresh:
  assumes "distinct (map key xs)" and "key ` set xs \<inter> fst ` set acc = {}"
  shows "foldl (\<lambda>result x. AList.update (key x) (val x) result) acc xs
           = acc @ map (\<lambda>x. (key x, val x)) xs"
  using assms
proof (induction xs arbitrary: acc)
  case Nil
  then show ?case by simp
next
  case (Cons x xs)
  from Cons.prems have fresh: "key x \<notin> fst ` set acc" by auto
  have "key ` set xs \<inter> fst ` set (acc @ [(key x, val x)]) = {}"
    using Cons.prems by auto
  with Cons.IH [of "acc @ [(key x, val x)]"] Cons.prems(1) fresh
  show ?case by (simp add: update_fresh)
qed

lemma pack_flat_list:
  "pack_parameter_to_dict (PList xs) name = Inr (map (\<lambda>i. (level_name i, xs ! i)) [0..<length xs])"
proof -
  have "distinct (map level_name [0..<length xs])"
    by (simp add: distinct_map inj_on_def level_name_inj)
  from foldl_update_fresh [of level_name "[0..<length xs]" "[]" "\<lambda>i. xs ! i", OF this]
  show ?thesis by (simp add: pack_parameter_to_dict_def)
qed

lemma broadcast_flat_list:
  assumes "distinct (map fst scales1)"
  shows "broadcast_parameter_to_scales (PList xs) name scales1 = Inr (map (\<lambda>k. (k, xs)) (map fst scales1))"
proof -
  have "foldl (\<lambda>result key. AList.update key xs result) [] (map fst scales1)
          = map (\<lambda>k. (k, xs)) (map fst scales1)"
    using foldl_update_fresh [of "\<lambda>k. k" "map fst scales1" "[]" "\<lambda>_. xs"] assms by simp
  then show ?thesis
    by (simp add: broadcast_parameter_to_scales_def comp_def)
qed

lemma map_of_const: "k \<in> set ks \<Longrightarrow> map_of (map (\<lambda>k. (k, v)) ks) k = Some v"
  by (induction ks) auto

lemma validate_flat_list:
  "length sz = length st \<Longrightarrow>
   validate_sizes_and_strides (map (\<lambda>k. (k, sz)) ks') (map (\<lambda>k. (k, st)) ks) = Inr ()"
  if "set ks' \<subseteq> set ks"
  using that by (induction ks') (auto simp: map_of_const)

lemma build_generators_flat:
  assumes "\<forall>(level, sc) \<in> set ls. map_of scales1 level = Some sc \<and> map_of sizes1 level = Some sz
              \<and> map_of ars1 level = Some ar \<and> map_of strides1 level = Some st"
    and "distinct (map fst ls)"
    and "fst ` set ls \<inter> fst ` set acc = {}"
  shows "build_generators (map fst ls) scales1 sizes1 ars1 strides1 clip0 acc
         = Inr (acc @ map (\<lambda>(level, sc). (level, \<lparr>scale = sc, sizes = sz, aspect_ratios = ar,
                                     stride = st, clip_boxes = clip0\<rparr>)) ls)"
  using assms
proof (induction ls arbitrary: acc)
  case Nil
  then show ?case by simp
next
  case (Cons a ls)
  obtain level sc where a: "a = (level, sc)" by (cases a)
  let ?g = "\<lparr>scale = sc, sizes = sz, aspect_ratios = ar, stride = st, clip_boxes = clip0\<rparr>"
  from Cons.prems(1) a have lk: "map_of scales1 level = Some sc" "map_of sizes1 level = Some sz"
    "map_of ars1 level = Some ar" "map_of strides1 level = Some st"
    by auto
  from Cons.prems a have fresh: "level \<notin> fst ` set acc" by auto
  have disj: "fst ` set ls \<inter> fst ` set (acc @ [(level, ?g)]) = {}"
    using Cons.prems a by auto
  have "build_generators (map fst ls) scales1 sizes1 ars1 strides1 clip0 (acc @ [(level, ?g)])
         = Inr ((acc @ [(level, ?g)]) @ map (\<lambda>(level, sc). (level, \<lparr>scale = sc, sizes = sz,
                  aspect_ratios = ar, stride = st, clip_boxes = clip0\<rparr>)) ls)"
    using Cons.IH [OF _ _ disj] Cons.prems by simp
  then show ?case
    using lk fresh by (simp add: a update_fresh)
qed

text \<open>
  Construction from flat lists of which \<^verbatim>\<open>sizes\<close> and \<^verbatim>\<open>strides\<close> have the same
  length: one level per element of \<^verbatim>\<open>scales\<close>, named \<^verbatim>\<open>level_0\<close>, \<^verbatim>\<open>level_1\<close>, \<open>\<dots>\<close> in
  input order, each holding its own scale and the whole lists of sizes, aspect ratios
  and strides.
\<close>

lemma init_flat_lists:
  assumes "length sz = length st"
  shows "init format0 (PList sz) (PList sc) (PList ar) (PList st) clip0
     = Inr \<lparr>bounding_box_format = format0,
            anchor_generators = map (\<lambda>i. (level_name i,
               \<lparr>scale = sc ! i, sizes = sz, aspect_ratios = ar, stride = st, clip_boxes = clip0\<rparr>))
               [0..<length sc]\<rparr>"
proof -
  let ?scales1 = "map (\<lambda>i. (level_name i, sc ! i)) [0..<length sc]"
  let ?keys = "map fst ?scales1"
  have d: "distinct ?keys"
    by (simp add: distinct_map inj_on_def level_name_inj comp_def)
  have v: "validate_sizes_and_strides (map (\<lambda>k. (k, sz)) ?keys) (map (\<lambda>k. (k, st)) ?keys) = Inr ()"
    using validate_flat_list [of ?keys ?keys sz st] assms by simp
  have look: "\<forall>(level, s) \<in> set ?scales1. map_of ?scales1 level = Some s
      \<and> map_of (map (\<lambda>k. (k, sz)) ?keys) level = Some sz
      \<and> map_of (map (\<lambda>k. (k, ar)) ?keys) level = Some ar
      \<and> map_of (map (\<lambda>k. (k, st)) ?keys) level = Some st"
  proof (clarify, intro conjI)
    fix level s assume m: "(level, s) \<in> set ?scales1"
    then show "map_of ?scales1 level = Some s" using d by (rule_tac map_of_is_SomeI)
    from m have "level \<in> set ?keys" by force
    then show "map_of (map (\<lambda>k. (k, sz)) ?keys) level = Some sz"
      "map_of (map (\<lambda>k. (k, ar)) ?keys) level = Some ar"
      "map_of (map (\<lambda>k. (k, st)) ?keys) level = Some st"
      by (rule map_of_const)+
  qed
  have b: "build_generators ?keys ?scales1 (map (\<lambda>k. (k, sz)) ?keys)
           (map (\<lambda>k. (k, ar)) ?keys) (map (\<lambda>k. (k, st)) ?keys) clip0 []
         = Inr (map (\<lambda>(level, sc). (level, \<lparr>scale = sc, sizes = sz, aspect_ratios = ar,
                                     stride = st, clip_boxes = clip0\<rparr>)) ?scales1)"
    using build_generators_flat [OF look d, of "[]" clip0] by simp
  show ?thesis
    unfolding init_def
    by (simp only: pack_flat_list broadcast_flat_list [OF d] v b sum.case old.unit.case)
       (simp add: comp_def)
qed


text \<open>
  Claim C10 concludes that every level built from flat lists generates the cross product
  of sizes and aspect ratios. With two sizes the level also holds the two strides that
  the constructor requires, and the call of that level stops at \<^verbatim>\<open>tf.range\<close>, which
  takes a scalar stride; it returns no anchors at all.
\<close>

theorem flat_lists_level_raises:
  "init ''yxyx'' (PList [32, 64]) (PList [1]) (PList [1, 4]) (PList [8, 16]) False
     = Inr \<lparr>bounding_box_format = ''yxyx'',
            anchor_generators = [(''level_0'',
              \<lparr>scale = 1, sizes = [32, 64], aspect_ratios = [1, 4], stride = [8, 16],
                 clip_boxes = False\<rparr>)]\<rparr>
   \<and> single_call \<lparr>scale = 1, sizes = [32, 64], aspect_ratios = [1, 4], stride = [8, 16],
                    clip_boxes = False\<rparr> (16, 16)
     = Inl (InvalidArgumentError ''start must be a scalar'')"
proof -
  have name: "level_name 0 = ''level_0''"
    by (simp add: level_name_def string_of_nat.simps digit_char_def)
  have "init ''yxyx'' (PList [32, 64]) (PList [1]) (PList [1, 4]) (PList [8, 16]) False
     = Inr \<lparr>bounding_box_format = ''yxyx'',
            anchor_generators = [(''level_0'',
              \<lparr>scale = 1, sizes = [32, 64], aspect_ratios = [1, 4], stride = [8, 16],
                 clip_boxes = False\<rparr>)]\<rparr>"
    by (subst init_flat_lists) (simp_all add: name)
  moreover have "single_call \<lparr>scale = 1, sizes = [32, 64], aspect_ratios = [1, 4],
      stride = [8, 16], clip_boxes = False\<rparr> (16, 16)
     = Inl (InvalidArgumentError ''start must be a scalar'')"
    by (simp add: single_call_def broadcast2_def as_scalar_def Let_def)
  ultimately show ?thesis by simp
qed

section \<open>The delta codec stops at an unbound name\<close>

text \<open>
  Claim C1 asks that decoding undo encoding. Neither function gets as far as computing
  anything: once the variance has passed its length check, \<^verbatim>\<open>encode_box_to_deltas\<close> ends
  in the \<^verbatim>\<open>NameError\<close> of its first call of \<^verbatim>\<open>convert_format\<close>, whatever the anchors, the
  boxes and the formats, and so does \<^verbatim>\<open>decode_deltas_to_boxes\<close> on tensors. No deltas
  and no boxes are returned.
\<close>

theorem codec_raises_name_error:
  "encode_box_to_deltas anchors bs anchor_box_format bounding_box_format0 None
     = Inl (NameError ''convert_format'')
   \<and> encode_box_to_deltas anchors bs anchor_box_format bounding_box_format0 (Some [v1, v2, v3, v4])
     = Inl (NameError ''convert_format'')
   \<and> decode_deltas_to_boxes (Tensor anchors) (Tensor deltas) anchor_box_format bounding_box_format0
       None
     = Inl (NameError ''convert_format'')
   \<and> decode_deltas_to_boxes (Tensor anchors) (Tensor deltas) anchor_box_format bounding_box_format0
       (Some [v1, v2, v3, v4])
     = Inl (NameError ''convert_format'')"
  by (simp add: encode_box_to_deltas_def decode_deltas_to_boxes_def decode_single_level_def
      check_variance_def assert_same_structure_def)

section \<open>The result of the recall metric\<close>

lemma count_nonzero_word:
  "sum_list (map (\<lambda>g. if g \<noteq> 0 then 1 else 0 :: 32 word) gs) = of_nat (length (filter (\<lambda>g. g \<noteq> 0) gs))"
  by (induction gs) simp_all

lemma sint_of_nat_small: "n < 2 ^ 31 \<Longrightarrow> sint (of_nat n :: 32 word) = int n"
  by (simp add: signed_of_nat signed_take_bit_int_eq_self)

lemma length_present_categories:
  "length (present_categories m) = length (filter (\<lambda>g. g \<noteq> 0) (ground_truth_boxes m))"
proof -
  let ?gs = "ground_truth_boxes m"
  have "filter (\<lambda>g. g \<noteq> 0) (map ((!) ?gs) [0..<length ?gs])
          = map ((!) ?gs) (filter (\<lambda>k. ?gs ! k \<noteq> 0) [0..<length ?gs])"
    by (simp add: filter_map comp_def)
  then have "length (filter (\<lambda>g. g \<noteq> 0) ?gs) = length (filter (\<lambda>k. ?gs ! k \<noteq> 0) [0..<length ?gs])"
    by (simp add: map_nth del: upt.simps)
  then show ?thesis by (simp add: present_categories_def)
qed

lemma n_present_categories_eq:
  assumes "length (ground_truth_boxes m) < 2 ^ 31"
  shows "n_present_categories m = real (length (present_categories m))"
proof -
  have "length (filter (\<lambda>g. g \<noteq> 0) (ground_truth_boxes m)) \<le> length (ground_truth_boxes m)"
    by simp
  with assms have "length (filter (\<lambda>g. g \<noteq> 0) (ground_truth_boxes m)) < 2 ^ 31"
    by linarith
  then show ?thesis
    by (simp add: n_present_categories_def count_nonzero_word sint_of_nat_small
        length_present_categories)
qed

lemma row_recall_sum:
  assumes "length row = length gs"
  shows "sum_list (map2 (\<lambda>tp gt. divide_no_nan (real_of_int (sint tp)) (real_of_int (sint gt))) row gs)
       = (\<Sum>k\<leftarrow>filter (\<lambda>k. gs ! k \<noteq> 0) [0..<length gs].
            real_of_int (sint (row ! k)) / real_of_int (sint ((gs :: 32 word list) ! k)))"
proof -
  let ?f = "\<lambda>k. divide_no_nan (real_of_int (sint (row ! k))) (real_of_int (sint (gs ! k)))"
  let ?g = "\<lambda>k. real_of_int (sint (row ! k)) / real_of_int (sint (gs ! k))"
  let ?present = "filter (\<lambda>k. gs ! k \<noteq> 0) [0..<length gs]"
  have a: "map2 (\<lambda>tp gt. divide_no_nan (real_of_int (sint tp)) (real_of_int (sint gt))) row gs
          = map ?f [0..<length gs]"
    using assms by (intro nth_equalityI) simp_all
  have b: "sum_list (map ?f ?present) = sum_list (map ?f [0..<length gs])"
    by (rule sum_list_map_filter) (simp add: divide_no_nan_def)
  have c: "map ?f ?present = map ?g ?present"
    by (rule map_cong) (simp_all add: divide_no_nan_def signed_eq_0_iff)
  have "sum_list (map2 (\<lambda>tp gt. divide_no_nan (real_of_int (sint tp)) (real_of_int (sint gt))) row gs)
          = sum_list (map ?f [0..<length gs])"
    using a by (rule arg_cong)
  also have "\<dots> = sum_list (map ?f ?present)"
    by (rule b [symmetric])
  also have "\<dots> = sum_list (map ?g ?present)"
    using c by (rule arg_cong)
  finally show ?thesis .
qed

lemma recalls_per_threshold_eq:
  assumes "wf_state m"
  shows "recalls_per_threshold m = map (spec_recall_at m) [0..<length (true_positives m)]"
proof (rule nth_equalityI)
  show "length (recalls_per_threshold m) = length (map (spec_recall_at m) [0..<length (true_positives m)])"
    by (simp add: recalls_per_threshold_def)
next
  fix t assume "t < length (recalls_per_threshold m)"
  then have t: "t < length (true_positives m)"
    by (simp add: recalls_per_threshold_def)
  with assms have len: "length (true_positives m ! t) = length (ground_truth_boxes m)"
    by (simp add: wf_state_def list_all_length)
  from assms have n: "n_present_categories m = real (length (present_categories m))"
    by (simp add: wf_state_def n_present_categories_eq)
  have "recalls_per_threshold m ! t
      = sum_list (map2 (\<lambda>tp gt. divide_no_nan (real_of_int (sint tp)) (real_of_int (sint gt)))
                   (true_positives m ! t) (ground_truth_boxes m))
        / n_present_categories m"
    by (simp only: recalls_per_threshold_def nth_map [OF t])
  also have "\<dots> = spec_recall_at m t"
    by (simp only: row_recall_sum [OF len] n spec_recall_at_def present_categories_def)
  finally show "recalls_per_threshold m ! t = map (spec_recall_at m) [0..<length (true_positives m)] ! t"
    using t by simp
qed

lemma no_ground_truth_result: "list_all (\<lambda>g. g = 0) (ground_truth_boxes m) \<Longrightarrow> recall_result m = Finite 0"
proof -
  assume "list_all (\<lambda>g. g = 0) (ground_truth_boxes m)"
  then have "filter (\<lambda>g. g \<noteq> 0) (ground_truth_boxes m) = []"
    by (simp add: list_all_iff filter_empty_conv)
  then show ?thesis
    by (simp add: recall_result_def n_present_categories_def count_nonzero_word)
qed

text \<open>
  Claim C5. On every accumulator state of the shape the constructor creates,
  \<^verbatim>\<open>result()\<close> is the finite number the specification describes: the mean over the IoU
  thresholds of the recall summed over the categories with ground truth and divided by
  their number. When no category has ground truth the result is exactly 0, and so it is
  right after \<^verbatim>\<open>reset_state\<close> and on a freshly constructed metric; no division by zero
  is reached.
\<close>

theorem recall_result_mean_of_present_recalls:
  "(wf_state m \<longrightarrow> recall_result m = Finite (spec_result m))
   \<and> (list_all (\<lambda>g. g = 0) (ground_truth_boxes z) \<longrightarrow> recall_result z = Finite 0)
   \<and> recall_result (recall_reset_state r) = Finite 0
   \<and> (recall_init class_ids0 iou_thresholds0 area_range0 max_detections0 = Inr f
        \<longrightarrow> recall_result f = Finite 0)"
proof (intro conjI impI)
  assume wf: "wf_state m"
  then have n: "n_present_categories m = real (length (present_categories m))"
    by (simp add: wf_state_def n_present_categories_eq)
  from wf have T: "true_positives m \<noteq> []" by (simp add: wf_state_def)
  show "recall_result m = Finite (spec_result m)"
  proof (cases "present_categories m = []")
    case True
    with n show ?thesis by (simp add: recall_result_def spec_result_def)
  next
    case False
    with n have "n_present_categories m \<noteq> 0" by simp
    with False T show ?thesis
      by (simp add: recall_result_def spec_result_def reduce_mean_def tf_divide_def
          recalls_per_threshold_eq [OF wf] del: upt.simps)
  qed
next
  assume "list_all (\<lambda>g. g = 0) (ground_truth_boxes z)"
  then show "recall_result z = Finite 0" by (rule no_ground_truth_result)
next
  show "recall_result (recall_reset_state r) = Finite 0"
    by (rule no_ground_truth_result) (simp add: recall_reset_state_def list_all_iff)
next
  assume "recall_init class_ids0 iou_thresholds0 area_range0 max_detections0 = Inr f"
  then have "ground_truth_boxes f = replicate (length class_ids0) 0"
    by (auto simp: recall_init_def Let_def split: if_splits)
  then show "recall_result f = Finite 0"
    by (intro no_ground_truth_result) (simp add: list_all_iff)
qed

theorem recall_result_mean_of_present_recalls_witness:
  "wf_state \<lparr>class_ids = [1, 2], iou_thresholds = [1 / 2, 3 / 4], area_range = None,
             max_detections = 100, true_positives = [[1, 0], [2, 0]], ground_truth_boxes = [2, 0]\<rparr>
   \<and> recall_result \<lparr>class_ids = [1, 2], iou_thresholds = [1 / 2, 3 / 4], area_range = None,
             max_detections = 100, true_positives = [[1, 0], [2, 0]], ground_truth_boxes = [2, 0]\<rparr>
       = Finite (3 / 4)
   \<and> recall_result \<lparr>class_ids = [1, 2], iou_thresholds = [1 / 2, 3 / 4], area_range = None,
             max_detections = 100, true_positives = [[1, 0], [2, 0]], ground_truth_boxes = [0, 0]\<rparr>
       = Finite 0
   \<and> recall_init [1, 2] (Some [1 / 2, 3 / 4]) None 100
       = Inr \<lparr>class_ids = [1, 2], iou_thresholds = [1 / 2, 3 / 4], area_range = None,
             max_detections = 100, true_positives = [[0, 0], [0, 0]], ground_truth_boxes = [0, 0]\<rparr>
   \<and> recall_result \<lparr>class_ids = [1, 2], iou_thresholds = [1 / 2, 3 / 4], area_range = None,
             max_detections = 100, true_positives = [[0, 0], [0, 0]], ground_truth_boxes = [0, 0]\<rparr>
       = Finite 0"
proof -
  let ?m = "\<lparr>class_ids = [1, 2], iou_thresholds = [1 / 2, 3 / 4], area_range = None,
             max_detections = 100, true_positives = [[1, 0], [2, 0]], ground_truth_boxes = [2, 0]\<rparr>"
  let ?z = "\<lparr>class_ids = [1, 2], iou_thresholds = [1 / 2, 3 / 4], area_range = None,
             max_detections = 100, true_positives = [[1, 0], [2, 0]], ground_truth_boxes = [0, 0]\<rparr>"
  let ?f = "\<lparr>class_ids = [1, 2], iou_thresholds = [1 / 2, 3 / 4], area_range = None,
             max_detections = 100, true_positives = [[0, 0], [0, 0]], ground_truth_boxes = [0, 0]\<rparr>"
  have wf: "wf_state ?m" by (simp add: wf_state_def)
  have present: "present_categories ?m = [0]"
    by (simp add: present_categories_def upt_rec)
  have spec: "spec_result ?m = 3 / 4"
    by (simp add: spec_result_def spec_recall_at_def present upt_rec)
  have z: "list_all (\<lambda>g. g = 0) (ground_truth_boxes ?z)" by simp
  have f: "recall_init [1, 2] (Some [1 / 2, 3 / 4]) None 100 = Inr ?f"
    by (simp add: recall_init_def numeral_2_eq_2)
  from recall_result_mean_of_present_recalls [of ?m ?z _ "[1, 2]" "Some [1 / 2, 3 / 4]" None 100 ?f]
    wf spec z f
  show ?thesis by simp
qed

section \<open>Division by zero in the results of the metrics\<close>

text \<open>
  Claim C9, as amended. The recall metric guards its divisions: a cell with a zero
  ground-truth count contributes 0, a zero number of present categories gives the result
  0, and with at least one threshold the result is a finite number. The mean box count
  delta metric does not: its result is the finite quotient of \<^verbatim>\<open>delta_sum\<close> by
  \<^verbatim>\<open>samples\<close> when \<^verbatim>\<open>samples\<close> is not zero, and NaN or an infinity when it is.
\<close>

theorem guarded_and_unguarded_division:
  "(true_positives m \<noteq> [] \<longrightarrow> (\<exists>x. recall_result m = Finite x))
   \<and> (n_present_categories z = 0 \<longrightarrow> recall_result z = Finite 0)
   \<and> divide_no_nan x 0 = 0
   \<and> (samples d \<noteq> 0 \<longrightarrow> mbcd_result d = Finite (delta_sum d / samples d))
   \<and> (samples e = 0 \<longrightarrow>
        mbcd_result e = (if delta_sum e = 0 then NaN else if 0 < delta_sum e then PosInf else NegInf))"
  by (simp add: recall_result_def reduce_mean_def tf_divide_def recalls_per_threshold_def
      mbcd_result_def divide_no_nan_def)

theorem guarded_and_unguarded_division_witness:
  "recall_result \<lparr>class_ids = [1, 2], iou_thresholds = [1 / 2, 3 / 4], area_range = None,
             max_detections = 100, true_positives = [[1, 0], [2, 0]], ground_truth_boxes = [2, 0]\<rparr>
       \<noteq> NaN
   \<and> recall_result \<lparr>class_ids = [1, 2], iou_thresholds = [1 / 2, 3 / 4], area_range = None,
             max_detections = 100, true_positives = [[1, 0], [2, 0]], ground_truth_boxes = [0, 0]\<rparr>
       = Finite 0
   \<and> mbcd_result \<lparr>delta_sum = 2, samples = 1\<rparr> = Finite 2
   \<and> mbcd_result (mbcd_reset_state \<lparr>delta_sum = 2, samples = 1\<rparr>) = NaN"
proof -
  let ?m = "\<lparr>class_ids = [1, 2], iou_thresholds = [1 / 2, 3 / 4], area_range = None,
             max_detections = 100, true_positives = [[1, 0], [2, 0]], ground_truth_boxes = [2, 0]\<rparr>"
  let ?z = "\<lparr>class_ids = [1, 2], iou_thresholds = [1 / 2, 3 / 4], area_range = None,
             max_detections = 100, true_positives = [[1, 0], [2, 0]], ground_truth_boxes = [0, 0]\<rparr>"
  have z: "n_present_categories ?z = 0" by (simp add: n_present_categories_def)
  have m: "true_positives ?m \<noteq> []" by simp
  from guarded_and_unguarded_division [of ?m ?z _ "\<lparr>delta_sum = 2, samples = 1\<rparr>"
      "mbcd_reset_state \<lparr>delta_sum = 2, samples = 1\<rparr>"] z m
  show ?thesis by (auto simp: mbcd_reset_state_def)
qed

text \<open>
  Claim C9 as stated says that \<^verbatim>\<open>MeanBoxCountDelta.result()\<close> is 0 with no samples. On
  the freshly constructed metric both accumulators are 0 and the plain division gives
  NaN.
\<close>

theorem mean_box_count_delta_zero_samples_counterexample:
  "mbcd_result mbcd_init = NaN \<and> mbcd_result mbcd_init \<noteq> Finite 0"
  by (simp add: mbcd_result_def mbcd_init_def tf_divide_def)

section \<open>Updating the recall metric\<close>

text \<open>
  Claim C8 asks for a validation error on an unbatched argument, with the accumulators
  untouched. Whenever \<^verbatim>\<open>validate_format\<close> accepts the arguments and one of them is
  unbatched, both variants of \<^verbatim>\<open>update_state\<close> leave the metric as it was, but the
  exception that reaches the caller is the \<^verbatim>\<open>AttributeError\<close> raised while the message
  of the intended \<^verbatim>\<open>ValueError\<close> is built.
\<close>

theorem unbatched_update_raises_attribute_error:
  "boxes_rank (Unbatched b) = 2
   \<and> recall_update_state (u\<lparr>validate_format := \<lambda>_. None\<rparr>) m (Unbatched b) y_pred
     = (Some (AttributeError ''ranks''), m)
   \<and> recall_update_state (u\<lparr>validate_format := \<lambda>_. None\<rparr>) m y_true (Unbatched b)
     = (Some (AttributeError ''ranks''), m)
   \<and> in_graph_update_state (u\<lparr>validate_format := \<lambda>_. None\<rparr>) m (Unbatched b) y_pred
     = (Some (AttributeError ''ranks''), m)
   \<and> in_graph_update_state (u\<lparr>validate_format := \<lambda>_. None\<rparr>) m y_true (Unbatched b)
     = (Some (AttributeError ''ranks''), m)"
  by (cases y_true; cases y_pred) (simp_all add: recall_update_state_def in_graph_update_state_def)

section \<open>What an update adds to the accumulators\<close>

lemma threshold_scatter_prefix:
  assumes "n \<le> length tp"
  shows "foldl (\<lambda>tp t. scatter_add2 tp (t, k) (c t)) tp [0..<n]
           = map (\<lambda>t. if t < n then (tp ! t)[k := tp ! t ! k + c t] else tp ! t) [0..<length tp]"
  using assms
proof (induction n)
  case 0
  then show ?case by (simp add: map_nth)
next
  case (Suc n)
  let ?F = "\<lambda>n t. if t < n then (tp ! t)[k := tp ! t ! k + c t] else tp ! t"
  from Suc have n: "n < length tp" by simp
  from Suc have IH: "foldl (\<lambda>tp t. scatter_add2 tp (t, k) (c t)) tp [0..<n] = map (?F n) [0..<length tp]"
    by simp
  have "foldl (\<lambda>tp t. scatter_add2 tp (t, k) (c t)) tp [0..<Suc n]
          = scatter_add2 (map (?F n) [0..<length tp]) (n, k) (c n)"
    by (simp add: IH)
  also have "\<dots> = (map (?F n) [0..<length tp])[n := (tp ! n)[k := tp ! n ! k + c n]]"
    using n by (simp add: scatter_add2_def scatter_add1_def)
  also have "\<dots> = map (?F (Suc n)) [0..<length tp]"
    using n by (intro nth_equalityI) (auto simp: nth_list_update less_Suc_eq)
  finally show ?case .
qed

lemma threshold_scatter:
  "foldl (\<lambda>tp t. scatter_add2 tp (t, k) (c t)) tp [0..<length tp]
     = map (\<lambda>t. (tp ! t)[k := tp ! t ! k + c t]) [0..<length tp]"
  using threshold_scatter_prefix [of "length tp" tp k c] by simp

lemma cells_add_zero:
  assumes "length (fst upd) = T" and "list_all (\<lambda>row. length row = K) (fst upd)" and "length (snd upd) = K"
  shows "cells_add T K upd (\<lambda>t k. 0) (\<lambda>k. 0) = upd"
proof -
  have rows: "map (\<lambda>k. fst upd ! t ! k) [0..<K] = fst upd ! t" if "t < T" for t
  proof -
    from that assms have "length (fst upd ! t) = K" by (simp add: list_all_length)
    then show ?thesis by (intro nth_equalityI) simp_all
  qed
  have "map (\<lambda>t. map (\<lambda>k. fst upd ! t ! k) [0..<K]) [0..<T] = fst upd"
    using assms(1) by (intro nth_equalityI) (simp_all add: rows)
  moreover have "map (\<lambda>k. snd upd ! k) [0..<K] = snd upd"
    using assms(3) by (intro nth_equalityI) simp_all
  ultimately show ?thesis by (simp add: cells_add_def prod_eq_iff)
qed

lemma cells_add_fst_nth:
  "t < T \<Longrightarrow> k < K \<Longrightarrow> fst (cells_add T K upd c g) ! t ! k = fst upd ! t ! k + c t k"
  by (simp add: cells_add_def)

lemma cells_add_snd_nth:
  "k < K \<Longrightarrow> snd (cells_add T K upd c g) ! k = snd upd ! k + g k"
  by (simp add: cells_add_def)

lemma cells_add_cong:
  "(\<And>t k. t < T \<Longrightarrow> k < K \<Longrightarrow> c t k = c' t k) \<Longrightarrow> (\<And>k. k < K \<Longrightarrow> g k = g' k) \<Longrightarrow>
   cells_add T K upd c g = cells_add T K upd c' g'"
  by (simp add: cells_add_def)

lemma cells_add_twice:
  "cells_add T K (cells_add T K upd c g) c' g'
     = cells_add T K upd (\<lambda>t k. c t k + c' t k) (\<lambda>k. g k + g' k)"
  by (simp add: cells_add_def add.assoc)

lemma category_scatter_prefix:
  assumes "length (fst upd) = T" and "list_all (\<lambda>row. length row = K) (fst upd)" and "length (snd upd) = K"
    and "n \<le> K"
  shows "foldl (\<lambda>(tp, gt) k. (foldl (\<lambda>tp t. scatter_add2 tp (t, k) (c t k)) tp [0..<T],
                                scatter_add1 gt k (g k))) upd [0..<n]
           = cells_add T K upd (\<lambda>t k. if k < n then c t k else 0) (\<lambda>k. if k < n then g k else 0)"
  using assms(4)
proof (induction n)
  case 0
  then show ?case by (simp add: cells_add_zero [OF assms(1-3)])
next
  case (Suc n)
  let ?step = "\<lambda>(tp, gt) k. (foldl (\<lambda>tp t. scatter_add2 tp (t, k) (c t k)) tp [0..<T],
                                scatter_add1 gt k (g k))"
  let ?cn = "\<lambda>n t k. if k < n then c t k else 0" and ?gn = "\<lambda>n k. if k < n then g k else 0"
  from Suc have n: "n < K" by simp
  define tp where "tp = map (\<lambda>t. map (\<lambda>k. fst upd ! t ! k + ?cn n t k) [0..<K]) [0..<T]"
  define gt where "gt = map (\<lambda>k. snd upd ! k + ?gn n k) [0..<K]"
  from Suc have IH: "foldl ?step upd [0..<n] = (tp, gt)"
    by (simp add: cells_add_def tp_def gt_def)
  have len: "length tp = T" by (simp add: tp_def)
  have "foldl (\<lambda>tp t. scatter_add2 tp (t, n) (c t n)) tp [0..<T]
          = map (\<lambda>t. (tp ! t)[n := tp ! t ! n + c t n]) [0..<T]"
    using threshold_scatter [of n "\<lambda>t. c t n" tp] len by simp
  also have "\<dots> = map (\<lambda>t. map (\<lambda>k. fst upd ! t ! k + ?cn (Suc n) t k) [0..<K]) [0..<T]"
  proof (rule map_cong [OF refl])
    fix t assume "t \<in> set [0..<T]"
    then have t: "t < T" by simp
    show "(tp ! t)[n := tp ! t ! n + c t n] = map (\<lambda>k. fst upd ! t ! k + ?cn (Suc n) t k) [0..<K]"
      using t n by (intro nth_equalityI) (auto simp: tp_def nth_list_update less_Suc_eq)
  qed
  finally have a: "foldl (\<lambda>tp t. scatter_add2 tp (t, n) (c t n)) tp [0..<T]
          = map (\<lambda>t. map (\<lambda>k. fst upd ! t ! k + ?cn (Suc n) t k) [0..<K]) [0..<T]" .
  have b: "scatter_add1 gt n (g n) = map (\<lambda>k. snd upd ! k + ?gn (Suc n) k) [0..<K]"
    using n by (intro nth_equalityI) (auto simp: scatter_add1_def gt_def nth_list_update less_Suc_eq)
  have "foldl ?step upd [0..<Suc n] = ?step (tp, gt) n"
    by (simp add: IH)
  also have "\<dots> = cells_add T K upd (?cn (Suc n)) (?gn (Suc n))"
    by (simp add: a b cells_add_def)
  finally show ?case .
qed

lemma category_scatter:
  assumes "length (fst upd) = T" and "list_all (\<lambda>row. length row = K) (fst upd)" and "length (snd upd) = K"
  shows "foldl (\<lambda>(tp, gt) k. (foldl (\<lambda>tp t. scatter_add2 tp (t, k) (c t k)) tp [0..<T],
                                scatter_add1 gt k (g k))) upd [0..<K]
           = cells_add T K upd c g"
  using category_scatter_prefix [OF assms, of K c g]
  by (simp add: cells_add_cong [of T K "\<lambda>t k. if k < K then c t k else 0" c
        "\<lambda>k. if k < K then g k else 0" g])


lemma cells_add_shape:
  "accumulator_shape m (cells_add (length (iou_thresholds m)) (length (class_ids m)) upd c g)"
  by (simp add: accumulator_shape_def cells_add_def list_all_iff)

lemma in_graph_category_loop_cells:
  assumes "accumulator_shape m upd"
  shows "in_graph_category_loop u m (area_filter u m (get_boxes_for_image u y_true img))
           (area_filter u m (order_by_confidence u (get_boxes_for_image u y_pred img))) upd
         = cells_add (length (iou_thresholds m)) (length (class_ids m)) upd
             (\<lambda>t k. matched_count u m y_true y_pred img k t)
             (\<lambda>k. ground_truth_count u m y_true img k)"
proof -
  have "in_graph_category_loop u m (area_filter u m (get_boxes_for_image u y_true img))
           (area_filter u m (order_by_confidence u (get_boxes_for_image u y_pred img))) upd
        = foldl (\<lambda>(tp, gt) k.
                   (foldl (\<lambda>tp t. scatter_add2 tp (t, k) (matched_count u m y_true y_pred img k t))
                      tp [0..<length (iou_thresholds m)],
                    scatter_add1 gt k (ground_truth_count u m y_true img k)))
            upd [0..<length (class_ids m)]"
    by (simp only: in_graph_category_loop_def in_graph_threshold_loop_def Let_def
        matched_count_def ground_truth_count_def ground_truths_for_def detections_for_def)
  also have "\<dots> = cells_add (length (iou_thresholds m)) (length (class_ids m)) upd
             (\<lambda>t k. matched_count u m y_true y_pred img k t)
             (\<lambda>k. ground_truth_count u m y_true img k)"
    using assms by (intro category_scatter) (simp_all add: accumulator_shape_def)
  finally show ?thesis .
qed

lemma in_graph_image_loop_prefix:
  assumes "accumulator_shape m upd"
  shows "foldl (\<lambda>upd img.
                  in_graph_category_loop u m (area_filter u m (get_boxes_for_image u y_true img))
                    (area_filter u m (order_by_confidence u (get_boxes_for_image u y_pred img))) upd)
           upd [0..<n]
         = cells_add (length (iou_thresholds m)) (length (class_ids m)) upd
             (\<lambda>t k. \<Sum>img\<leftarrow>[0..<n]. matched_count u m y_true y_pred img k t)
             (\<lambda>k. \<Sum>img\<leftarrow>[0..<n]. ground_truth_count u m y_true img k)"
proof (induction n)
  case 0
  from assms show ?case
    by (simp add: cells_add_zero accumulator_shape_def)
next
  case (Suc n)
  show ?case
    by (simp add: Suc in_graph_category_loop_cells [OF cells_add_shape] cells_add_twice)
qed

lemma in_graph_image_loop_cells:
  assumes "accumulator_shape m upd"
  shows "in_graph_image_loop u m y_true y_pred upd
         = cells_add (length (iou_thresholds m)) (length (class_ids m)) upd
             (\<lambda>t k. \<Sum>img\<leftarrow>[0..<length y_true]. matched_count u m y_true y_pred img k t)
             (\<lambda>k. \<Sum>img\<leftarrow>[0..<length y_true]. ground_truth_count u m y_true img k)"
  unfolding in_graph_image_loop_def Let_def by (rule in_graph_image_loop_prefix [OF assms])

lemma assign_add_counted:
  assumes "accumulator_shape m (true_positives m, ground_truth_boxes m)"
  shows "assign_add m
           (in_graph_image_loop u m y_true y_pred
              (map (map (\<lambda>_. 0)) (true_positives m), map (\<lambda>_. 0) (ground_truth_boxes m)))
         = counted_state u m y_true y_pred"
proof -
  let ?T = "length (iou_thresholds m)" and ?K = "length (class_ids m)"
  let ?zeros = "(map (map (\<lambda>_. 0 :: 32 word)) (true_positives m), map (\<lambda>_. 0 :: 32 word) (ground_truth_boxes m))"
  let ?c = "\<lambda>t k. \<Sum>img\<leftarrow>[0..<length y_true]. matched_count u m y_true y_pred img k t"
  let ?g = "\<lambda>k. \<Sum>img\<leftarrow>[0..<length y_true]. ground_truth_count u m y_true img k"
  from assms have sh: "length (true_positives m) = ?T" "length (ground_truth_boxes m) = ?K"
    "\<And>t. t < ?T \<Longrightarrow> length (true_positives m ! t) = ?K"
    by (simp_all add: accumulator_shape_def list_all_length)
  have z: "accumulator_shape m ?zeros"
    using assms by (simp add: accumulator_shape_def list_all_iff)
  have loop: "in_graph_image_loop u m y_true y_pred ?zeros = cells_add ?T ?K ?zeros ?c ?g"
    by (rule in_graph_image_loop_cells [OF z])
  have tp: "map2 (map2 (+)) (true_positives m) (fst (cells_add ?T ?K ?zeros ?c ?g))
          = map (\<lambda>t. map (\<lambda>k. true_positives m ! t ! k + ?c t k) [0..<?K]) [0..<?T]"
  proof (rule nth_equalityI)
    show "length (map2 (map2 (+)) (true_positives m) (fst (cells_add ?T ?K ?zeros ?c ?g)))
            = length (map (\<lambda>t. map (\<lambda>k. true_positives m ! t ! k + ?c t k) [0..<?K]) [0..<?T])"
      by (simp add: cells_add_def sh)
  next
    fix t assume "t < length (map2 (map2 (+)) (true_positives m) (fst (cells_add ?T ?K ?zeros ?c ?g)))"
    then have t: "t < ?T" by (simp add: cells_add_def sh)
    have "map2 (+) (true_positives m ! t)
              (map (\<lambda>k. map (\<lambda>_. 0) (true_positives m ! t) ! k + ?c t k) [0..<?K])
            = map (\<lambda>k. true_positives m ! t ! k + ?c t k) [0..<?K]"
      using sh(3) [OF t] by (intro nth_equalityI) simp_all
    then show "map2 (map2 (+)) (true_positives m) (fst (cells_add ?T ?K ?zeros ?c ?g)) ! t
            = map (\<lambda>t. map (\<lambda>k. true_positives m ! t ! k + ?c t k) [0..<?K]) [0..<?T] ! t"
      using t sh by (simp add: cells_add_def)
  qed
  have gt: "map2 (+) (ground_truth_boxes m) (snd (cells_add ?T ?K ?zeros ?c ?g))
          = map (\<lambda>k. ground_truth_boxes m ! k + ?g k) [0..<?K]"
    using sh by (intro nth_equalityI) (simp_all add: cells_add_def)
  show ?thesis
    unfolding loop by (simp only: assign_add_def counted_state_def tp gt)
qed

text \<open>
  The benchmark variant, for batched arguments that pass validation and accumulators of
  the shape the constructor creates: one call of its \<^verbatim>\<open>update_state\<close> adds to the
  ground-truth count of a category the number of its ground-truth boxes once for every
  image, whatever the number of thresholds, and to every (threshold, category) cell of
  the true positives the number of matched detections of every image.
\<close>

lemma in_graph_update_counted:
  assumes "validate_format u (Batched yt) = None" and "validate_format u (Batched yp) = None"
    and "accumulator_shape m (true_positives m, ground_truth_boxes m)"
  shows "in_graph_update_state u m (Batched yt) (Batched yp)
           = (None, counted_state u m (convert_format u (to_dense u yt))
                      (convert_format u (to_dense u yp)))"
  by (simp add: in_graph_update_state_def assms(1,2) Let_def assign_add_counted [OF assms(3)])

lemma in_graph_update_counted_example:
  "in_graph_update_state
     \<lparr>validate_format = \<lambda>_. None, to_dense = \<lambda>b. b, convert_format = \<lambda>b. b,
        sort_bounding_boxes = \<lambda>b. b, get_boxes_for_image = \<lambda>b i. b ! i,
        order_by_confidence = \<lambda>b. b, filter_boxes_by_area_range = \<lambda>b lo hi. b,
        filter_boxes = \<lambda>b c. \<lparr>boxes = map fst (filter (\<lambda>p. snd p = c) (zip (boxes b) (classes b))),
                                classes = filter (\<lambda>x. x = c) (classes b), confidence = None\<rparr>,
        slice_boxes = \<lambda>b n. b,
        compute_iou = \<lambda>a b. map (\<lambda>_. map (\<lambda>_. 1) b) a,
        match_boxes = \<lambda>ious t. (case ious of [] \<Rightarrow> [] | row # _ \<Rightarrow> map (\<lambda>_. 0) row)\<rparr>
     \<lparr>class_ids = [1, 2], iou_thresholds = [1 / 2, 3 / 4], area_range = None, max_detections = 100,
        true_positives = [[0, 0], [0, 0]], ground_truth_boxes = [0, 0]\<rparr>
     (Batched [\<lparr>boxes = [(0, 0, 1, 1), (0, 0, 2, 2)], classes = [1, 2], confidence = None\<rparr>])
     (Batched [\<lparr>boxes = [(0, 0, 1, 1)], classes = [1], confidence = Some [9 / 10]\<rparr>])
   = (None,
      \<lparr>class_ids = [1, 2], iou_thresholds = [1 / 2, 3 / 4], area_range = None, max_detections = 100,
        true_positives = [[1, 0], [1, 0]], ground_truth_boxes = [1, 1]\<rparr>)"
proof -
  let ?u = "\<lparr>validate_format = \<lambda>_. None, to_dense = \<lambda>b. b, convert_format = \<lambda>b. b,
        sort_bounding_boxes = \<lambda>b. b, get_boxes_for_image = \<lambda>b i. b ! i,
        order_by_confidence = \<lambda>b. b, filter_boxes_by_area_range = \<lambda>b lo hi. b,
        filter_boxes = \<lambda>b c. \<lparr>boxes = map fst (filter (\<lambda>p. snd p = c) (zip (boxes b) (classes b))),
                                classes = filter (\<lambda>x. x = c) (classes b), confidence = None\<rparr>,
        slice_boxes = \<lambda>b n. b,
        compute_iou = \<lambda>a b. map (\<lambda>_. map (\<lambda>_. 1) b) a,
        match_boxes = \<lambda>ious t. (case ious of [] \<Rightarrow> [] | row # _ \<Rightarrow> map (\<lambda>_. 0) row)\<rparr>"
  let ?m = "\<lparr>class_ids = [1, 2], iou_thresholds = [1 / 2, 3 / 4], area_range = None, max_detections = 100,
        true_positives = [[0, 0], [0, 0]], ground_truth_boxes = [0, 0]\<rparr>"
  let ?yt = "[\<lparr>boxes = [(0, 0, 1, 1), (0, 0, 2, 2)], classes = [1, 2], confidence = None\<rparr>]"
  let ?yp = "[\<lparr>boxes = [(0, 0, 1, 1)], classes = [1], confidence = Some [9 / 10]\<rparr>]"
  have v: "validate_format ?u (Batched ?yt) = None" "validate_format ?u (Batched ?yp) = None"
    by simp_all
  have sh: "accumulator_shape ?m (true_positives ?m, ground_truth_boxes ?m)"
    by (simp add: accumulator_shape_def)
  have gts: "ground_truths_for ?u ?m ?yt 0 0
               = \<lparr>boxes = [(0, 0, 1, 1)], classes = [1], confidence = None\<rparr>"
    "ground_truths_for ?u ?m ?yt 0 (Suc 0)
               = \<lparr>boxes = [(0, 0, 2, 2)], classes = [2], confidence = None\<rparr>"
    by (simp_all add: ground_truths_for_def area_filter_def)
  have dets: "detections_for ?u ?m ?yp 0 0
               = \<lparr>boxes = [(0, 0, 1, 1)], classes = [1], confidence = None\<rparr>"
    "detections_for ?u ?m ?yp 0 (Suc 0) = \<lparr>boxes = [], classes = [], confidence = None\<rparr>"
    by (simp_all add: detections_for_def area_filter_def)
  have c: "counted_state ?u ?m ?yt ?yp = \<lparr>class_ids = [1, 2], iou_thresholds = [1 / 2, 3 / 4], area_range = None, max_detections = 100,
        true_positives = [[1, 0], [1, 0]], ground_truth_boxes = [1, 1]\<rparr>"
    by (simp add: counted_state_def matched_count_def ground_truth_count_def gts dets
        true_positives_sum_def upt_rec)
  from in_graph_update_counted [OF v sh] c
  show ?thesis by simp
qed

text \<open>
  Claim C4 says that both variants add the ground-truth count of a category once per
  image. The variant of \<^verbatim>\<open>recall.py\<close> adds nothing: on batched arguments that pass
  validation it ends in the \<^verbatim>\<open>TypeError\<close> of \<^verbatim>\<open>tf.shape(y_true)[0]\<close> before its loops, and
  leaves both accumulators as they were.
\<close>

theorem recall_update_stops_before_loops:
  "recall_update_state (u\<lparr>validate_format := \<lambda>_. None\<rparr>) m (Batched yt) (Batched yp)
     = (Some (TypeError ''Failed to convert elements to Tensor''), m)"
  by (simp add: recall_update_state_def)

end
